theory Spec2Isabelle
  imports Main "HOL-Library.Monad_Syntax"
begin

section \<open>Data model\<close>

text \<open>
  The PBX simulator of \<^verbatim>\<open>src/src/tu.c\<close>, \<^verbatim>\<open>src/src/pbx.c\<close> and
  \<^verbatim>\<open>src/src/server.c\<close>, run by one thread from the first to the last statement of a
  call.  A \<^verbatim>\<open>TU *\<close> is an address; \<^verbatim>\<open>NULL\<close> is \<open>None\<close>.  The heap maps the address
  of every live \<^verbatim>\<open>struct tu\<close> to its fields; a freed or never allocated address maps
  to \<open>None\<close>.

  Every function returns an \<open>option\<close>: \<open>None\<close> says that the call does not return
  (a null or dangling pointer is dereferenced, a signed counter overflows, or the
  thread locks a mutex that it holds already and so blocks for ever).
\<close>

type_synonym addr = nat

text \<open>
  Modelled from the spec: the enumeration \<^verbatim>\<open>TU_STATE\<close> is declared in \<^verbatim>\<open>tu.h\<close>, which is
  not among the sources.  Its seven states are the ones \<^verbatim>\<open>tu.c\<close> uses, in the order in
  which the spec lists them, which is the order of the table \<^verbatim>\<open>state_messages[]\<close> that
  \<^verbatim>\<open>notify_client_of_tu_state\<close> indexes by state.
\<close>

datatype TU_STATE =
  TU_ON_HOOK | TU_RINGING | TU_DIAL_TONE | TU_RING_BACK | TU_BUSY_SIGNAL | TU_CONNECTED | TU_ERROR

text \<open>\<^verbatim>\<open>struct tu\<close>; its mutex is the lock \<open>LTu a\<close> of the address \<open>a\<close> of the struct.\<close>

record tu =
  fd :: int
  ext :: int
  ref_count :: int
  state :: TU_STATE
  peer :: "addr option"

datatype lock = LPbx | LTu addr

text \<open>
  What a call does to the outside, in program order: \<^verbatim>\<open>write(fd, message, ...)\<close>,
  \<^verbatim>\<open>close(fd)\<close>, \<^verbatim>\<open>free(tu)\<close>, \<^verbatim>\<open>pthread_cond_signal\<close>, and the mutex operations.
  Messages on \<^verbatim>\<open>stderr\<close> are not recorded.
\<close>

datatype event =
  Write int string | Close int | Free addr | Lock lock | Unlock lock | Signal

text \<open>
  The memory and the environment of the running thread: the TU heap, the fields
  \<^verbatim>\<open>extensions[]\<close> and \<^verbatim>\<open>active_tus\<close> of the one \<^verbatim>\<open>struct pbx\<close> (the global \<^verbatim>\<open>pbx\<close>,
  taken to be initialised), the mutexes the thread holds, the events so far, the
  descriptors on which \<^verbatim>\<open>write\<close> returns a negative value, and whether \<^verbatim>\<open>malloc\<close>
  returns \<^verbatim>\<open>NULL\<close>.
\<close>

record world =
  heap :: "addr \<Rightarrow> tu option"
  extensions :: "int \<Rightarrow> addr option"
  active_tus :: int
  held :: "lock set"
  trace :: "event list"
  wfail :: "int \<Rightarrow> bool"
  oom :: bool

text \<open>
  Modelled from the spec: \<^verbatim>\<open>PBX_MAX_EXTENSIONS\<close> is declared in \<^verbatim>\<open>pbx.h\<close>, which is
  not among the sources; the spec gives the bound of the registry as 1024.
\<close>

definition PBX_MAX_EXTENSIONS :: int where
  "PBX_MAX_EXTENSIONS = 1024"

text \<open>The two characters \<^verbatim>\<open>\r\n\<close> that end the string literals of \<^verbatim>\<open>tu.c\<close>.\<close>

definition CRLF :: string where
  "CRLF = [CHR 0x0D, CHR 0x0A]"

definition INT_MAX :: int where
  "INT_MAX = 2147483647"

definition INT_MIN :: int where
  "INT_MIN = - 2147483648"

section \<open>C library\<close>

text \<open>\<^verbatim>\<open>%d\<close> of \<^verbatim>\<open>printf\<close>.\<close>

definition digit_char :: "nat \<Rightarrow> char" where
  "digit_char n = char_of (48 + n)"

function nat_dec :: "nat \<Rightarrow> string" where
  "nat_dec n = (if n < 10 then [digit_char n] else nat_dec (n div 10) @ [digit_char (n mod 10)])"
  by pat_completeness auto
termination
  by (relation "measure (\<lambda>n. n)") auto

definition int_dec :: "int \<Rightarrow> string" where
  "int_dec i = (if i < 0 then CHR ''-'' # nat_dec (nat (- i)) else nat_dec (nat i))"

text \<open>\<^verbatim>\<open>snprintf(buffer, n, ...)\<close> keeps at most \<open>n - 1\<close> characters of the formatted text.\<close>

definition snprintf :: "nat \<Rightarrow> string \<Rightarrow> string" where
  "snprintf n s = take (n - 1) s"

definition emit :: "event \<Rightarrow> world \<Rightarrow> world" where
  "emit e w = w\<lparr>trace := trace w @ [e]\<rparr>"

text \<open>
  \<^verbatim>\<open>pthread_mutex_lock\<close> on a default mutex: the thread that holds the mutex and
  locks it again never returns.
\<close>

definition mutex_lock :: "lock \<Rightarrow> world \<Rightarrow> world option" where
  "mutex_lock l w =
     (if l \<in> held w then None
      else Some (w\<lparr>held := insert l (held w), trace := trace w @ [Lock l]\<rparr>))"

definition mutex_unlock :: "lock \<Rightarrow> world \<Rightarrow> world" where
  "mutex_unlock l w = w\<lparr>held := held w - {l}, trace := trace w @ [Unlock l]\<rparr>"

text \<open>\<^verbatim>\<open>pthread_mutex_init\<close> and \<^verbatim>\<open>pthread_mutex_destroy\<close> leave the mutex unlocked.\<close>

definition mutex_reset :: "lock \<Rightarrow> world \<Rightarrow> world" where
  "mutex_reset l w = w\<lparr>held := held w - {l}\<rparr>"

text \<open>The mutex of a TU lives in the struct: the struct has to be live.\<close>

definition tu_mutex_lock :: "addr \<Rightarrow> world \<Rightarrow> world option" where
  "tu_mutex_lock a w = (if heap w a = None then None else mutex_lock (LTu a) w)"

definition tu_mutex_unlock :: "addr \<Rightarrow> world \<Rightarrow> world option" where
  "tu_mutex_unlock a w = (if heap w a = None then None else Some (mutex_unlock (LTu a) w))"

text \<open>An assignment to a field of \<^verbatim>\<open>*a\<close>, and the read of \<^verbatim>\<open>a->peer\<close> as a pointer to follow.\<close>

definition tu_update :: "addr \<Rightarrow> (tu \<Rightarrow> tu) \<Rightarrow> world \<Rightarrow> world option" where
  "tu_update a f w =
     (case heap w a of None \<Rightarrow> None | Some t \<Rightarrow> Some (w\<lparr>heap := (heap w)(a \<mapsto> f t)\<rparr>))"

definition peer_of :: "addr \<Rightarrow> world \<Rightarrow> addr option" where
  "peer_of a w = (case heap w a of None \<Rightarrow> None | Some t \<Rightarrow> peer t)"

definition free :: "addr \<Rightarrow> world \<Rightarrow> world" where
  "free a w = emit (Free a) (w\<lparr>heap := (heap w)(a := None)\<rparr>)"

section \<open>tu.c\<close>

definition notify_client :: "int \<Rightarrow> string \<Rightarrow> world \<Rightarrow> world" where
  "notify_client fd' message w =
     (if fd' < 0 then w
      else if wfail w fd' then emit (Close fd') (emit (Write fd' message) w)
      else emit (Write fd' message) w)"

definition state_messages :: "TU_STATE \<Rightarrow> string" where
  "state_messages s =
     (case s of
        TU_ON_HOOK \<Rightarrow> ''ON_HOOK'' @ CRLF
      | TU_RINGING \<Rightarrow> ''RINGING'' @ CRLF
      | TU_DIAL_TONE \<Rightarrow> ''DIAL_TONE'' @ CRLF
      | TU_RING_BACK \<Rightarrow> ''RING_BACK'' @ CRLF
      | TU_BUSY_SIGNAL \<Rightarrow> ''BUSY_SIGNAL'' @ CRLF
      | TU_CONNECTED \<Rightarrow> ''CONNECTED'' @ CRLF
      | TU_ERROR \<Rightarrow> ''ERROR'' @ CRLF)"

definition notify_client_of_tu_state :: "addr \<Rightarrow> world \<Rightarrow> world option" where
  "notify_client_of_tu_state a w = do {
     t \<leftarrow> heap w a;
     buffer \<leftarrow> (case state t of
         TU_ON_HOOK \<Rightarrow> Some (snprintf 64 (''ON HOOK '' @ int_dec (fd t) @ CRLF))
       | TU_CONNECTED \<Rightarrow> do {
           p \<leftarrow> peer t;
           tp \<leftarrow> heap w p;
           Some (snprintf 64 (''CONNECTED '' @ int_dec (ext tp) @ CRLF)) }
       | _ \<Rightarrow> Some (take 63 (state_messages (state t))));
     Some (notify_client (fd t) buffer w) }"

definition safe_mutex_lock :: "addr \<Rightarrow> addr \<Rightarrow> world \<Rightarrow> world option" where
  "safe_mutex_lock tu1 tu2 w =
     (if tu1 < tu2 then do { w \<leftarrow> tu_mutex_lock tu1 w; tu_mutex_lock tu2 w }
      else do { w \<leftarrow> tu_mutex_lock tu2 w; tu_mutex_lock tu1 w })"

definition safe_mutex_unlock :: "addr \<Rightarrow> addr \<Rightarrow> world \<Rightarrow> world option" where
  "safe_mutex_unlock tu1 tu2 w =
     (if tu1 < tu2 then do { w \<leftarrow> tu_mutex_unlock tu1 w; tu_mutex_unlock tu2 w }
      else do { w \<leftarrow> tu_mutex_unlock tu2 w; tu_mutex_unlock tu1 w })"

text \<open>
  \<^verbatim>\<open>tu_init\<close>.  \<open>blk\<close> is the block that \<^verbatim>\<open>malloc\<close> returns when it does not fail.  The
  mutex is locked before \<^verbatim>\<open>pthread_mutex_init\<close> has run; the bytes of the fresh block
  are taken to read as an unlocked mutex.
\<close>

definition tu_init :: "int \<Rightarrow> addr \<Rightarrow> world \<Rightarrow> (addr option \<times> world) option" where
  "tu_init fd' blk w =
     (if oom w then Some (None, w)
      else do {
        w \<leftarrow> mutex_lock (LTu blk) w;
        let w = w\<lparr>heap := (heap w)(blk \<mapsto>
                  \<lparr>fd = fd', ext = fd', ref_count = 1, state = TU_ON_HOOK, peer = None\<rparr>)\<rparr>;
        let w = mutex_reset (LTu blk) w;
        let w = notify_client fd' (snprintf 15 (''ON HOOK '' @ int_dec fd' @ CRLF)) w;
        w \<leftarrow> tu_mutex_unlock blk w;
        Some (Some blk, w) })"

definition tu_ref :: "addr \<Rightarrow> world \<Rightarrow> world option" where
  "tu_ref a w = do {
     t \<leftarrow> heap w a;
     if ref_count t = INT_MAX then None
     else tu_update a (\<lambda>t. t\<lparr>ref_count := ref_count t + 1\<rparr>) w }"

partial_function (option) tu_unref :: "addr option \<Rightarrow> world \<Rightarrow> world option" where
  "tu_unref tu w =
     (case tu of
        None \<Rightarrow> Some w
      | Some a \<Rightarrow> do {
          w \<leftarrow> tu_mutex_lock a w;
          t \<leftarrow> heap w a;
          w \<leftarrow> (if ref_count t = INT_MIN then None
                else tu_update a (\<lambda>t. t\<lparr>ref_count := ref_count t - 1\<rparr>) w);
          t \<leftarrow> heap w a;
          let rc = ref_count t;
          w \<leftarrow> tu_mutex_unlock a w;
          if rc = 0 then do {
            t \<leftarrow> heap w a;
            w \<leftarrow> (if peer t \<noteq> None then do {
                    p \<leftarrow> peer_of a w;
                    w \<leftarrow> tu_mutex_lock p w;
                    p \<leftarrow> peer_of a w;
                    w \<leftarrow> tu_update p (\<lambda>t. t\<lparr>state := TU_ON_HOOK\<rparr>) w;
                    p \<leftarrow> peer_of a w;
                    tp \<leftarrow> heap w p;
                    let w = notify_client (fd tp)
                              (snprintf 15 (''ON HOOK '' @ int_dec (fd tp) @ CRLF)) w;
                    t \<leftarrow> heap w a;
                    w \<leftarrow> tu_unref (peer t) w;
                    p \<leftarrow> peer_of a w;
                    w \<leftarrow> tu_update p (\<lambda>t. t\<lparr>peer := None\<rparr>) w;
                    w \<leftarrow> tu_update a (\<lambda>t. t\<lparr>peer := None\<rparr>) w;
                    p \<leftarrow> peer_of a w;
                    tu_mutex_unlock p w }
                  else Some w);
            t \<leftarrow> heap w a;
            w \<leftarrow> (if fd t \<ge> 0
                  then tu_update a (\<lambda>t. t\<lparr>fd := - 1\<rparr>) (emit (Close (fd t)) w)
                  else Some w);
            let w = mutex_reset (LTu a) w;
            Some (free a w) }
          else Some w })"

declare tu_unref.simps [code]

definition tu_fileno :: "addr \<Rightarrow> world \<Rightarrow> int option" where
  "tu_fileno a w = map_option fd (heap w a)"

definition tu_extension :: "addr \<Rightarrow> world \<Rightarrow> int option" where
  "tu_extension a w = map_option ext (heap w a)"

definition tu_set_extension :: "addr \<Rightarrow> int \<Rightarrow> world \<Rightarrow> (int \<times> world) option" where
  "tu_set_extension a ext' w = do {
     t \<leftarrow> heap w a;
     if ext t \<noteq> - 1 then Some (- 1, w)
     else do {
       w \<leftarrow> tu_update a (\<lambda>t. t\<lparr>ext := ext'\<rparr>) w;
       t \<leftarrow> heap w a;
       let w = notify_client (fd t) (snprintf 15 (''ON HOOK '' @ int_dec (ext t) @ CRLF)) w;
       Some (0, w) } }"

definition tu_dial :: "addr option \<Rightarrow> addr option \<Rightarrow> world \<Rightarrow> (int \<times> world) option" where
  "tu_dial tu target w =
     (case tu of
        None \<Rightarrow> Some (- 1, w)
      | Some a \<Rightarrow> do {
          w \<leftarrow> tu_mutex_lock a w;
          t \<leftarrow> heap w a;
          if state t \<noteq> TU_DIAL_TONE then do {
            w \<leftarrow> notify_client_of_tu_state a w;
            w \<leftarrow> tu_mutex_unlock a w;
            Some (- 1, w) }
          else (case target of
            None \<Rightarrow> do {
              w \<leftarrow> tu_update a (\<lambda>t. t\<lparr>state := TU_ERROR\<rparr>) w;
              t \<leftarrow> heap w a;
              let w = notify_client (fd t) (''ERROR'' @ CRLF) w;
              w \<leftarrow> tu_mutex_unlock a w;
              Some (- 1, w) }
          | Some b \<Rightarrow> do {
              w \<leftarrow> tu_mutex_unlock a w;
              w \<leftarrow> safe_mutex_lock a b w;
              tb \<leftarrow> heap w b;
              if a = b \<or> state tb \<noteq> TU_ON_HOOK \<or> peer tb \<noteq> None then do {
                w \<leftarrow> tu_update a (\<lambda>t. t\<lparr>state := TU_BUSY_SIGNAL\<rparr>) w;
                t \<leftarrow> heap w a;
                let w = notify_client (fd t) (''BUSY SIGNAL'' @ CRLF) w;
                w \<leftarrow> safe_mutex_unlock a b w;
                Some (- 1, w) }
              else do {
                w \<leftarrow> tu_update a (\<lambda>t. t\<lparr>peer := Some b\<rparr>) w;
                w \<leftarrow> tu_update b (\<lambda>t. t\<lparr>peer := Some a\<rparr>) w;
                w \<leftarrow> tu_ref b w;
                w \<leftarrow> tu_ref a w;
                w \<leftarrow> tu_update a (\<lambda>t. t\<lparr>state := TU_RING_BACK\<rparr>) w;
                w \<leftarrow> tu_update b (\<lambda>t. t\<lparr>state := TU_RINGING\<rparr>) w;
                t \<leftarrow> heap w a;
                let w = notify_client (fd t) (''RING BACK'' @ CRLF) w;
                tb \<leftarrow> heap w b;
                let w = notify_client (fd tb) (''RINGING'' @ CRLF) w;
                w \<leftarrow> safe_mutex_unlock a b w;
                Some (0, w) } }) })"

definition tu_pickup :: "addr option \<Rightarrow> world \<Rightarrow> (int \<times> world) option" where
  "tu_pickup tu w =
     (case tu of
        None \<Rightarrow> Some (- 1, w)
      | Some a \<Rightarrow> do {
          w \<leftarrow> tu_mutex_lock a w;
          t \<leftarrow> heap w a;
          if state t \<noteq> TU_ON_HOOK \<and> state t \<noteq> TU_RINGING then do {
            w \<leftarrow> notify_client_of_tu_state a w;
            w \<leftarrow> tu_mutex_unlock a w;
            Some (0, w) }
          else do {
            w \<leftarrow> (if state t = TU_ON_HOOK then do {
                    w \<leftarrow> tu_update a (\<lambda>t. t\<lparr>state := TU_DIAL_TONE\<rparr>) w;
                    t \<leftarrow> heap w a;
                    Some (notify_client (fd t) (''DIAL TONE'' @ CRLF) w) }
                  else do {
                    p \<leftarrow> peer_of a w;
                    w \<leftarrow> tu_mutex_lock p w;
                    w \<leftarrow> tu_update a (\<lambda>t. t\<lparr>state := TU_CONNECTED\<rparr>) w;
                    p \<leftarrow> peer_of a w;
                    tp \<leftarrow> heap w p;
                    t \<leftarrow> heap w a;
                    let w = notify_client (fd t)
                              (snprintf 15 (''CONNECTED '' @ int_dec (ext tp) @ CRLF)) w;
                    p \<leftarrow> peer_of a w;
                    w \<leftarrow> tu_update p (\<lambda>t. t\<lparr>state := TU_CONNECTED\<rparr>) w;
                    t \<leftarrow> heap w a;
                    p \<leftarrow> peer_of a w;
                    tp \<leftarrow> heap w p;
                    let w = notify_client (fd tp)
                              (snprintf 15 (''CONNECTED '' @ int_dec (ext t) @ CRLF)) w;
                    p \<leftarrow> peer_of a w;
                    tu_mutex_unlock p w });
            w \<leftarrow> tu_mutex_unlock a w;
            Some (0, w) } })"

text \<open>
  \<^verbatim>\<open>tu_hangup\<close>.  The first three branches of the source fall through to the common
  tail (\<^verbatim>\<open>tu_unref(tu->peer)\<close>, \<^verbatim>\<open>tu->peer = NULL\<close>, unlock, return 0) and are
  grouped under one test here; the last branch returns \<open>- 1\<close> early.
\<close>

definition tu_hangup :: "addr option \<Rightarrow> world \<Rightarrow> (int \<times> world) option" where
  "tu_hangup tu w =
     (case tu of
        None \<Rightarrow> Some (- 1, w)
      | Some a \<Rightarrow> do {
          w \<leftarrow> tu_mutex_lock a w;
          t \<leftarrow> heap w a;
          if state t = TU_CONNECTED \<or> state t = TU_RINGING \<or> state t = TU_RING_BACK
             \<or> state t = TU_DIAL_TONE \<or> state t = TU_BUSY_SIGNAL \<or> state t = TU_ERROR
          then do {
            w \<leftarrow> (if state t = TU_CONNECTED \<or> state t = TU_RINGING then do {
                    p \<leftarrow> peer_of a w;
                    w \<leftarrow> tu_mutex_lock p w;
                    w \<leftarrow> tu_update a (\<lambda>t. t\<lparr>state := TU_ON_HOOK\<rparr>) w;
                    t \<leftarrow> heap w a;
                    let w = notify_client (fd t)
                              (snprintf 15 (''ON HOOK '' @ int_dec (fd t) @ CRLF)) w;
                    p \<leftarrow> peer_of a w;
                    w \<leftarrow> tu_update p (\<lambda>t. t\<lparr>state := TU_DIAL_TONE\<rparr>) w;
                    p \<leftarrow> peer_of a w;
                    tp \<leftarrow> heap w p;
                    let w = notify_client (fd tp) (''DIAL TONE'' @ CRLF) w;
                    p \<leftarrow> peer_of a w;
                    w \<leftarrow> tu_update p (\<lambda>t. t\<lparr>peer := None\<rparr>) w;
                    p \<leftarrow> peer_of a w;
                    tu_mutex_unlock p w }
                  else if state t = TU_RING_BACK then do {
                    p \<leftarrow> peer_of a w;
                    w \<leftarrow> tu_mutex_lock p w;
                    w \<leftarrow> tu_update a (\<lambda>t. t\<lparr>state := TU_ON_HOOK\<rparr>) w;
                    t \<leftarrow> heap w a;
                    let w = notify_client (fd t)
                              (snprintf 15 (''ON HOOK '' @ int_dec (fd t) @ CRLF)) w;
                    p \<leftarrow> peer_of a w;
                    w \<leftarrow> tu_update p (\<lambda>t. t\<lparr>state := TU_ON_HOOK\<rparr>) w;
                    p \<leftarrow> peer_of a w;
                    tp \<leftarrow> heap w p;
                    let w = notify_client (fd tp)
                              (snprintf 15 (''ON HOOK '' @ int_dec (fd tp) @ CRLF)) w;
                    p \<leftarrow> peer_of a w;
                    w \<leftarrow> tu_update p (\<lambda>t. t\<lparr>peer := None\<rparr>) w;
                    p \<leftarrow> peer_of a w;
                    tu_mutex_unlock p w }
                  else do {
                    w \<leftarrow> tu_update a (\<lambda>t. t\<lparr>state := TU_ON_HOOK\<rparr>) w;
                    t \<leftarrow> heap w a;
                    Some (notify_client (fd t)
                            (snprintf 15 (''ON HOOK '' @ int_dec (fd t) @ CRLF)) w) });
            t \<leftarrow> heap w a;
            w \<leftarrow> tu_unref (peer t) w;
            w \<leftarrow> tu_update a (\<lambda>t. t\<lparr>peer := None\<rparr>) w;
            w \<leftarrow> tu_mutex_unlock a w;
            Some (0, w) }
          else do {
            w \<leftarrow> notify_client_of_tu_state a w;
            w \<leftarrow> tu_mutex_unlock a w;
            Some (- 1, w) } })"

definition tu_chat :: "addr option \<Rightarrow> string option \<Rightarrow> world \<Rightarrow> (int \<times> world) option" where
  "tu_chat tu msg w =
     (case (tu, msg) of
        (Some a, Some m) \<Rightarrow> do {
          w \<leftarrow> tu_mutex_lock a w;
          t \<leftarrow> heap w a;
          if state t \<noteq> TU_CONNECTED \<or> peer t = None then do {
            w \<leftarrow> notify_client_of_tu_state a w;
            w \<leftarrow> tu_mutex_unlock a w;
            Some (- 1, w) }
          else do {
            w \<leftarrow> tu_mutex_unlock a w;
            p \<leftarrow> peer_of a w;
            w \<leftarrow> safe_mutex_lock a p w;
            if oom w then do {
              p \<leftarrow> peer_of a w;
              w \<leftarrow> safe_mutex_unlock a p w;
              Some (- 1, w) }
            else do {
              p \<leftarrow> peer_of a w;
              tp \<leftarrow> heap w p;
              let w = notify_client (ext tp) (''CHAT '' @ m @ CRLF) w;
              t \<leftarrow> heap w a;
              let w = notify_client (fd t)
                        (snprintf 15 (''CONNECTED '' @ int_dec (ext tp) @ CRLF)) w;
              p \<leftarrow> peer_of a w;
              w \<leftarrow> safe_mutex_unlock a p w;
              Some (0, w) } } }
      | _ \<Rightarrow> Some (- 1, w))"

section \<open>pbx.c\<close>

definition pbx_register :: "addr option \<Rightarrow> int \<Rightarrow> world \<Rightarrow> (int \<times> world) option" where
  "pbx_register tu ext' w =
     (case tu of
        None \<Rightarrow> Some (- 1, w)
      | Some a \<Rightarrow>
          if ext' < 0 \<or> ext' \<ge> PBX_MAX_EXTENSIONS then Some (- 1, w)
          else do {
            w \<leftarrow> mutex_lock LPbx w;
            if extensions w ext' \<noteq> None then Some (- 1, mutex_unlock LPbx w)
            else do {
              let w = w\<lparr>extensions := (extensions w)(ext' := Some a)\<rparr>;
              let w = w\<lparr>active_tus := active_tus w + 1\<rparr>;
              (r, w) \<leftarrow> tu_set_extension a ext' w;
              w \<leftarrow> tu_ref a w;
              Some (0, mutex_unlock LPbx w) } })"

definition pbx_unregister :: "addr option \<Rightarrow> world \<Rightarrow> (int \<times> world) option" where
  "pbx_unregister tu w = do {
     w \<leftarrow> mutex_lock LPbx w;
     case tu of
       None \<Rightarrow> Some (- 1, mutex_unlock LPbx w)
     | Some a \<Rightarrow> do {
         ext' \<leftarrow> tu_extension a w;
         if ext' < 0 \<or> ext' \<ge> PBX_MAX_EXTENSIONS \<or> extensions w ext' \<noteq> Some a
         then Some (- 1, mutex_unlock LPbx w)
         else do {
           w \<leftarrow> tu_ref a w;
           let w = w\<lparr>extensions := (extensions w)(ext' := None)\<rparr>;
           let w = w\<lparr>active_tus := active_tus w - 1\<rparr>;
           (r, w) \<leftarrow> tu_hangup (Some a) w;
           w \<leftarrow> tu_unref (Some a) w;
           let w = (if active_tus w = 0 then emit Signal w else w);
           w \<leftarrow> tu_unref (Some a) w;
           Some (0, mutex_unlock LPbx w) } } }"

definition pbx_dial :: "addr option \<Rightarrow> int \<Rightarrow> world \<Rightarrow> (int \<times> world) option" where
  "pbx_dial tu ext' w =
     (case tu of
        None \<Rightarrow> Some (- 1, w)
      | Some a \<Rightarrow>
          if ext' < 0 \<or> ext' \<ge> PBX_MAX_EXTENSIONS then Some (- 1, w)
          else do {
            w \<leftarrow> mutex_lock LPbx w;
            case extensions w ext' of
              None \<Rightarrow> Some (- 1, mutex_unlock LPbx w)
            | Some target_tu \<Rightarrow> do {
                w \<leftarrow> tu_ref a w;
                w \<leftarrow> tu_ref target_tu w;
                (result, w) \<leftarrow> tu_dial (Some a) (Some target_tu) w;
                w \<leftarrow> tu_unref (Some target_tu) w;
                w \<leftarrow> tu_unref (Some a) w;
                Some (result, mutex_unlock LPbx w) } })"

section \<open>server.c\<close>

definition isdigit :: "char \<Rightarrow> bool" where
  "isdigit c = (48 \<le> (of_char c :: nat) \<and> (of_char c :: nat) \<le> 57)"

text \<open>
  \<^verbatim>\<open>atoi\<close> on a string that starts with a digit: the value of the leading digits.
  A value that does not fit an \<^verbatim>\<open>int\<close> is undefined in C and \<open>None\<close> here.
\<close>

definition atoi :: "string \<Rightarrow> int option" where
  "atoi s =
     (let v = foldl (\<lambda>acc c. 10 * acc + (int (of_char c) - 48)) 0 (takeWhile isdigit s)
      in if v > INT_MAX then None else Some v)"

text \<open>
  The body of the loop over the complete lines of the input: \<open>command\<close> is one line
  without its \<^verbatim>\<open>\r\n\<close>.
\<close>

definition process_command :: "addr \<Rightarrow> string \<Rightarrow> world \<Rightarrow> world option" where
  "process_command tu command w =
     (if command = ''pickup'' then map_option snd (tu_pickup (Some tu) w)
      else if command = ''hangup'' then map_option snd (tu_hangup (Some tu) w)
      else if take 5 command = ''dial '' then
        (let ext_str = dropWhile (\<lambda>c. c = CHR '' '') (drop 5 command)
         in if ext_str \<noteq> [] \<and> isdigit (hd ext_str)
            then do { n \<leftarrow> atoi ext_str; map_option snd (pbx_dial (Some tu) n w) }
            else Some w)
      else if take 5 command = ''chat '' then
        map_option snd (tu_chat (Some tu) (Some (drop 5 command)) w)
      else Some w)"

fun process_lines :: "addr \<Rightarrow> string list \<Rightarrow> world \<Rightarrow> world option" where
  "process_lines tu [] w = Some w"
| "process_lines tu (l # ls) w = do { w \<leftarrow> process_command tu l w; process_lines tu ls w }"

text \<open>
  \<^verbatim>\<open>pbx_client_service\<close> for a connection on descriptor \<open>fd'\<close> whose client sends the
  complete lines \<open>ls\<close> and then closes the connection.  Reading the socket in chunks
  and cutting the input at \<^verbatim>\<open>EOL\<close> is not modelled: the lines are given.
\<close>

definition pbx_client_service :: "int \<Rightarrow> addr \<Rightarrow> string list \<Rightarrow> world \<Rightarrow> world option" where
  "pbx_client_service fd' blk ls w = do {
     (tu, w) \<leftarrow> tu_init fd' blk w;
     case tu of
       None \<Rightarrow> Some (emit (Close fd') w)
     | Some a \<Rightarrow> do {
         (r, w) \<leftarrow> pbx_register (Some a) fd' w;
         if r < 0 then do {
           w \<leftarrow> tu_unref (Some a) w;
           Some (emit (Close fd') w) }
         else do {
           w \<leftarrow> process_lines a ls w;
           (r, w) \<leftarrow> pbx_unregister (Some a) w;
           w \<leftarrow> tu_unref (Some a) w;
           Some (emit (Close fd') w) } } }"

section \<open>Observations\<close>

text \<open>The lines written to sockets, and the descriptors closed, in the order of the calls.\<close>

fun writes :: "event list \<Rightarrow> (int \<times> string) list" where
  "writes [] = []"
| "writes (Write f m # es) = (f, m) # writes es"
| "writes (e # es) = writes es"

fun closes :: "event list \<Rightarrow> int list" where
  "closes [] = []"
| "closes (Close f # es) = f # closes es"
| "closes (e # es) = closes es"

text \<open>
  Whether a trace takes a TU mutex at a moment when the thread holds the PBX lock;
  the flag says whether the PBX lock is held at the start of the trace.
\<close>

fun tu_lock_under_pbx :: "bool \<Rightarrow> event list \<Rightarrow> bool" where
  "tu_lock_under_pbx h [] = False"
| "tu_lock_under_pbx h (Lock LPbx # es) = tu_lock_under_pbx True es"
| "tu_lock_under_pbx h (Unlock LPbx # es) = tu_lock_under_pbx False es"
| "tu_lock_under_pbx h (Lock (LTu a) # es) = (h \<or> tu_lock_under_pbx h es)"
| "tu_lock_under_pbx h (e # es) = tu_lock_under_pbx h es"

text \<open>An event list without an operation on the PBX lock.\<close>

definition pbx_lock_free :: "event list \<Rightarrow> bool" where
  "pbx_lock_free es = (Lock LPbx \<notin> set es \<and> Unlock LPbx \<notin> set es)"

text \<open>The world, the result and one TU after a call that may not return.\<close>

definition world_of :: "('a \<times> world) option \<Rightarrow> world option" where
  "world_of r = map_option snd r"

definition result_of :: "('a \<times> world) option \<Rightarrow> 'a option" where
  "result_of r = map_option fst r"

definition tu_at :: "addr \<Rightarrow> world option \<Rightarrow> tu option" where
  "tu_at a r = Option.bind r (\<lambda>w. heap w a)"

definition written :: "world option \<Rightarrow> (int \<times> string) list option" where
  "written r = map_option (\<lambda>w. writes (trace w)) r"

definition closed_fds :: "world option \<Rightarrow> int list option" where
  "closed_fds r = map_option (\<lambda>w. closes (trace w)) r"

definition events :: "world option \<Rightarrow> event list option" where
  "events r = map_option trace r"

text \<open>
  The invariants 1 and 2 of the TU data model: a TU has a peer exactly in the states
  \<^verbatim>\<open>RINGING\<close>, \<^verbatim>\<open>RING_BACK\<close> and \<^verbatim>\<open>CONNECTED\<close>, and the peer of a TU is a live TU whose
  peer is the first one.
\<close>

definition tu_inv :: "world \<Rightarrow> bool" where
  "tu_inv w =
     (\<forall>a t. heap w a = Some t \<longrightarrow>
        ((peer t \<noteq> None) = (state t \<in> {TU_RINGING, TU_RING_BACK, TU_CONNECTED})) \<and>
        (\<forall>b. peer t = Some b \<longrightarrow> (\<exists>tb. heap w b = Some tb \<and> peer tb = Some a)))"

text \<open>
  The eight line encodings of the notification protocol, as the specification lists
  them, for a TU registered at extension \<open>e\<close>.
\<close>

definition protocol_line :: "int \<Rightarrow> string \<Rightarrow> bool" where
  "protocol_line e s =
     (s = ''ON HOOK '' @ int_dec e @ CRLF
      \<or> s = ''RINGING'' @ CRLF
      \<or> s = ''DIAL TONE'' @ CRLF
      \<or> s = ''RING BACK'' @ CRLF
      \<or> s = ''BUSY SIGNAL'' @ CRLF
      \<or> (take 10 s = ''CONNECTED '' \<and> drop (length s - 2) s = CRLF)
      \<or> s = ''ERROR'' @ CRLF
      \<or> (take 5 s = ''CHAT '' \<and> drop (length s - 2) s = CRLF))"

section \<open>Example worlds and call sequences\<close>

text \<open>The world after \<^verbatim>\<open>pbx_init\<close>: no TU, an empty registry, no lock held.\<close>

definition boot :: world where
  "boot = \<lparr>heap = (\<lambda>a. None), extensions = (\<lambda>e. None), active_tus = 0, held = {},
           trace = [], wfail = (\<lambda>f. False), oom = False\<rparr>"

text \<open>
  Two clients, on the descriptors 4 and 5, each registered at the extension of its
  descriptor: the TU at address 1 in state \<open>sa\<close> and the TU at address 2 in state
  \<open>sb\<close>, peers of each other when \<open>paired\<close>, with \<open>rc\<close> references each.
\<close>

definition two_tus :: "TU_STATE \<Rightarrow> TU_STATE \<Rightarrow> bool \<Rightarrow> int \<Rightarrow> world" where
  "two_tus sa sb paired rc =
     boot\<lparr>heap := (\<lambda>a. None)
             (1 \<mapsto> \<lparr>fd = 4, ext = 4, ref_count = rc, state = sa,
                    peer = (if paired then Some 2 else None)\<rparr>,
              2 \<mapsto> \<lparr>fd = 5, ext = 5, ref_count = rc, state = sb,
                    peer = (if paired then Some 1 else None)\<rparr>),
          extensions := (\<lambda>e. None)(4 := Some 1, 5 := Some 2),
          active_tus := 2\<rparr>"


text \<open>\<^verbatim>\<open>tu_init\<close> followed by the first \<^verbatim>\<open>tu_set_extension\<close> on the new TU.\<close>

definition init_then_set_extension ::
    "int \<Rightarrow> addr \<Rightarrow> int \<Rightarrow> world \<Rightarrow> (int \<times> world) option" where
  "init_then_set_extension fd' blk ext' w = do {
     (tu, w) \<leftarrow> tu_init fd' blk w;
     a \<leftarrow> tu;
     tu_set_extension a ext' w }"

text \<open>
  \<^verbatim>\<open>tu_init\<close> followed by \<^verbatim>\<open>pbx_register\<close> of the new TU at an extension, and the same
  followed by \<^verbatim>\<open>pbx_unregister\<close>.
\<close>

definition init_then_register ::
    "int \<Rightarrow> addr \<Rightarrow> int \<Rightarrow> world \<Rightarrow> (int \<times> world) option" where
  "init_then_register fd' blk ext' w = do {
     (tu, w) \<leftarrow> tu_init fd' blk w;
     pbx_register tu ext' w }"

definition init_register_unregister ::
    "int \<Rightarrow> addr \<Rightarrow> int \<Rightarrow> world \<Rightarrow> (int \<times> world) option" where
  "init_register_unregister fd' blk ext' w = do {
     (tu, w) \<leftarrow> tu_init fd' blk w;
     (r, w) \<leftarrow> pbx_register tu ext' w;
     pbx_unregister tu w }"

text \<open>
  The statements of \<^verbatim>\<open>tu_unref\<close> from its entry to the call \<^verbatim>\<open>tu_unref(tu->peer)\<close> in the
  cleanup (\<^verbatim>\<open>tu.c\<close>, lines 162 to 178), for a TU whose count reaches 0 while it has a
  peer: the world in which that call is made.  It is \<open>None\<close> for every other TU.
\<close>

definition tu_unref_to_peer_call :: "addr \<Rightarrow> world \<Rightarrow> world option" where
  "tu_unref_to_peer_call a w = do {
     w \<leftarrow> tu_mutex_lock a w;
     t \<leftarrow> heap w a;
     w \<leftarrow> (if ref_count t = INT_MIN then None
           else tu_update a (\<lambda>t. t\<lparr>ref_count := ref_count t - 1\<rparr>) w);
     t \<leftarrow> heap w a;
     let rc = ref_count t;
     w \<leftarrow> tu_mutex_unlock a w;
     if rc = 0 then do {
       t \<leftarrow> heap w a;
       if peer t \<noteq> None then do {
         p \<leftarrow> peer_of a w;
         w \<leftarrow> tu_mutex_lock p w;
         p \<leftarrow> peer_of a w;
         w \<leftarrow> tu_update p (\<lambda>t. t\<lparr>state := TU_ON_HOOK\<rparr>) w;
         p \<leftarrow> peer_of a w;
         tp \<leftarrow> heap w p;
         Some (notify_client (fd tp) (snprintf 15 (''ON HOOK '' @ int_dec (fd tp) @ CRLF)) w) }
       else None }
     else None }"

text \<open>
  Two TUs made by \<^verbatim>\<open>tu_init\<close> on the descriptors 4 and 5, connected by a pickup, a
  dial and a pickup, whose makers then release their references with \<^verbatim>\<open>tu_unref\<close>:
  the two TUs keep each other alive, each with the reference of its peer.
\<close>

definition released_pair :: "world option" where
  "released_pair = do {
     (a, w) \<leftarrow> tu_init 4 1 boot;
     (b, w) \<leftarrow> tu_init 5 2 w;
     (r, w) \<leftarrow> tu_pickup a w;
     (r, w) \<leftarrow> tu_dial a b w;
     (r, w) \<leftarrow> tu_pickup b w;
     w \<leftarrow> tu_unref a w;
     tu_unref b w }"

text \<open>\<^verbatim>\<open>tu_dial\<close> on a target followed by \<^verbatim>\<open>tu_hangup\<close> of the caller.\<close>

definition dial_then_hangup :: "addr \<Rightarrow> addr \<Rightarrow> world \<Rightarrow> (int \<times> world) option" where
  "dial_then_hangup a x w = do {
     (r, w) \<leftarrow> tu_dial (Some a) (Some x) w;
     tu_hangup (Some a) w }"

section \<open>Basic facts\<close>

lemma emit_simps [simp]:
  "heap (emit e w) = heap w" "held (emit e w) = held w" "trace (emit e w) = trace w @ [e]"
  "wfail (emit e w) = wfail w" "oom (emit e w) = oom w"
  "extensions (emit e w) = extensions w" "active_tus (emit e w) = active_tus w"
  by (simp_all add: emit_def)

lemma notify_client_simps [simp]:
  "heap (notify_client f m w) = heap w" "held (notify_client f m w) = held w"
  "wfail (notify_client f m w) = wfail w" "oom (notify_client f m w) = oom w"
  "extensions (notify_client f m w) = extensions w"
  "active_tus (notify_client f m w) = active_tus w"
  by (simp_all add: notify_client_def)

lemma mutex_unlock_simps [simp]:
  "heap (mutex_unlock l w) = heap w" "held (mutex_unlock l w) = held w - {l}"
  "trace (mutex_unlock l w) = trace w @ [Unlock l]"
  "wfail (mutex_unlock l w) = wfail w" "oom (mutex_unlock l w) = oom w"
  "extensions (mutex_unlock l w) = extensions w"
  "active_tus (mutex_unlock l w) = active_tus w"
  by (simp_all add: mutex_unlock_def)

lemma writes_append [simp]: "writes (xs @ ys) = writes xs @ writes ys"
  by (induction xs rule: writes.induct) simp_all

lemma closes_append [simp]: "closes (xs @ ys) = closes xs @ closes ys"
  by (induction xs rule: closes.induct) simp_all

lemma writes_notify_client [simp]:
  "writes (trace (notify_client f m w)) = writes (trace w) @ (if f < 0 then [] else [(f, m)])"
  by (simp add: notify_client_def)

subsection \<open>\<^verbatim>\<open>tu_unref\<close> without its recursion\<close>

lemma tu_unref_None [simp]: "tu_unref None w = Some w"
  by (subst tu_unref.simps) simp

lemma tu_unref_held: "LTu a \<in> held w \<Longrightarrow> tu_unref (Some a) w = None"
  by (subst tu_unref.simps) (simp add: tu_mutex_lock_def mutex_lock_def)

lemma tu_unref_dangling: "heap w a = None \<Longrightarrow> tu_unref (Some a) w = None"
  by (subst tu_unref.simps) (simp add: tu_mutex_lock_def mutex_lock_def)

lemma tu_unref_keep:
  assumes "heap w a = Some t" "LTu a \<notin> held w" "ref_count t \<noteq> INT_MIN" "ref_count t \<noteq> 1"
  shows "tu_unref (Some a) w =
         Some (w\<lparr>heap := (heap w)(a \<mapsto> t\<lparr>ref_count := ref_count t - 1\<rparr>),
                 trace := trace w @ [Lock (LTu a), Unlock (LTu a)]\<rparr>)"
  using assms
  by (subst tu_unref.simps)
     (simp add: tu_mutex_lock_def mutex_lock_def tu_update_def tu_mutex_unlock_def mutex_unlock_def)

lemma tu_unref_free:
  assumes "heap w a = Some t" "LTu a \<notin> held w" "ref_count t = 1" "peer t = None"
  shows "tu_unref (Some a) w =
         Some (w\<lparr>heap := (heap w)(a := None),
                 trace := trace w @ [Lock (LTu a), Unlock (LTu a)]
                          @ (if fd t \<ge> 0 then [Close (fd t)] else []) @ [Free a]\<rparr>)"
  using assms
  by (subst tu_unref.simps)
     (simp add: tu_mutex_lock_def mutex_lock_def tu_update_def tu_mutex_unlock_def mutex_unlock_def
        INT_MIN_def mutex_reset_def free_def emit_def)

text \<open>
  The cleanup of a TU that still has a peer never returns: it locks the mutex of the
  peer and then calls \<^verbatim>\<open>tu_unref\<close> on the peer, which locks the same mutex again.
\<close>

lemma tu_unref_peer_stuck:
  assumes "heap w a = Some t" "ref_count t = 1" "peer t = Some p"
  shows "tu_unref (Some a) w = None"
  using assms
  by (subst tu_unref.simps)
     (simp add: tu_mutex_lock_def mutex_lock_def tu_update_def tu_mutex_unlock_def mutex_unlock_def
        INT_MIN_def peer_of_def tu_unref_held split: option.splits)

lemma tu_unref_unfold:
  "tu_unref (Some a) w =
     (case heap w a of
        None \<Rightarrow> None
      | Some t \<Rightarrow>
          if LTu a \<in> held w \<or> ref_count t = INT_MIN then None
          else if ref_count t \<noteq> 1 then
            Some (w\<lparr>heap := (heap w)(a \<mapsto> t\<lparr>ref_count := ref_count t - 1\<rparr>),
                    trace := trace w @ [Lock (LTu a), Unlock (LTu a)]\<rparr>)
          else if peer t = None then
            Some (w\<lparr>heap := (heap w)(a := None),
                    trace := trace w @ [Lock (LTu a), Unlock (LTu a)]
                             @ (if fd t \<ge> 0 then [Close (fd t)] else []) @ [Free a]\<rparr>)
          else None)"
proof (cases "heap w a")
  case None
  then show ?thesis by (simp add: tu_unref_dangling)
next
  case (Some t)
  show ?thesis
  proof (cases "LTu a \<in> held w")
    case True
    then show ?thesis using Some by (simp add: tu_unref_held)
  next
    case False
    note nh = this
    show ?thesis
    proof (cases "ref_count t = INT_MIN")
      case True
      then show ?thesis using Some nh
        by (subst tu_unref.simps) (simp add: tu_mutex_lock_def mutex_lock_def)
    next
      case False
      note nm = this
      show ?thesis
      proof (cases "ref_count t = 1")
        case False
        then show ?thesis using Some nh nm by (simp add: tu_unref_keep)
      next
        case True
        then show ?thesis using Some nh nm
          by (cases "peer t") (auto simp: tu_unref_free tu_unref_peer_stuck)
      qed
    qed
  qed
qed

subsection \<open>Calls that go through\<close>

lemma tu_dial_rings:
  assumes "a \<noteq> b" "heap w a = Some ta" "state ta = TU_DIAL_TONE"
    "heap w b = Some tb" "state tb = TU_ON_HOOK" "peer tb = None"
    "LTu a \<notin> held w" "LTu b \<notin> held w"
    "ref_count ta \<noteq> INT_MAX" "ref_count tb \<noteq> INT_MAX"
  shows "\<exists>w'. tu_dial (Some a) (Some b) w = Some (0, w')
    \<and> heap w' = (heap w)
        (a \<mapsto> ta\<lparr>ref_count := ref_count ta + 1, state := TU_RING_BACK, peer := Some b\<rparr>,
         b \<mapsto> tb\<lparr>ref_count := ref_count tb + 1, state := TU_RINGING, peer := Some a\<rparr>)
    \<and> held w' = held w
    \<and> writes (trace w') = writes (trace w)
         @ (if fd ta < 0 then [] else [(fd ta, ''RING BACK'' @ CRLF)])
         @ (if fd tb < 0 then [] else [(fd tb, ''RINGING'' @ CRLF)])
    \<and> wfail w' = wfail w \<and> oom w' = oom w
    \<and> extensions w' = extensions w \<and> active_tus w' = active_tus w"
  using assms
  by (auto simp: tu_dial_def tu_mutex_lock_def mutex_lock_def tu_mutex_unlock_def
      safe_mutex_lock_def safe_mutex_unlock_def tu_update_def tu_ref_def fun_upd_twist)

lemma tu_hangup_ring_back:
  assumes "a \<noteq> b" "heap w a = Some ta" "state ta = TU_RING_BACK" "peer ta = Some b"
    "heap w b = Some tb" "LTu a \<notin> held w" "LTu b \<notin> held w"
    "ref_count tb \<noteq> INT_MIN" "ref_count tb \<noteq> 1"
  shows "\<exists>w'. tu_hangup (Some a) w = Some (0, w')
    \<and> heap w' = (heap w)
        (a \<mapsto> ta\<lparr>state := TU_ON_HOOK, peer := None\<rparr>,
         b \<mapsto> tb\<lparr>ref_count := ref_count tb - 1, state := TU_ON_HOOK, peer := None\<rparr>)
    \<and> held w' = held w
    \<and> writes (trace w') = writes (trace w)
         @ (if fd ta < 0 then []
            else [(fd ta, snprintf 15 (''ON HOOK '' @ int_dec (fd ta) @ CRLF))])
         @ (if fd tb < 0 then []
            else [(fd tb, snprintf 15 (''ON HOOK '' @ int_dec (fd tb) @ CRLF))])
    \<and> wfail w' = wfail w \<and> oom w' = oom w
    \<and> extensions w' = extensions w \<and> active_tus w' = active_tus w"
  using assms
  by (auto simp: tu_hangup_def tu_mutex_lock_def mutex_lock_def tu_mutex_unlock_def
      tu_update_def peer_of_def tu_unref_unfold fun_upd_twist)



lemma int_dec_5: "int_dec 5 = ''5''"
  by code_simp

section \<open>Hanging up while ringing\<close>




section \<open>Dialing an extension with no TU\<close>

text \<open>
  \<^verbatim>\<open>tu_dial\<close> with \<^verbatim>\<open>NULL\<close> as the target takes a TU in \<^verbatim>\<open>DIAL_TONE\<close> to \<^verbatim>\<open>ERROR\<close> and
  writes the \<^verbatim>\<open>ERROR\<close> line, as its documentation says.
\<close>

lemma tu_dial_null_target:
  "result_of (tu_dial (Some 1) None (two_tus TU_DIAL_TONE TU_ON_HOOK False 2)) = Some (- 1)
   \<and> map_option state
       (tu_at 1 (world_of (tu_dial (Some 1) None (two_tus TU_DIAL_TONE TU_ON_HOOK False 2))))
     = Some TU_ERROR
   \<and> written (world_of (tu_dial (Some 1) None (two_tus TU_DIAL_TONE TU_ON_HOOK False 2)))
     = Some [(4, ''ERROR'' @ CRLF)]"
  by code_simp

text \<open>
  C2 at the failing input: the TU at address 1 is in \<^verbatim>\<open>DIAL_TONE\<close> and nothing is
  registered at extension 99.  \<^verbatim>\<open>pbx_dial\<close> returns \<open>- 1\<close> from its own lookup and never
  calls \<^verbatim>\<open>tu_dial\<close>: the TU stays in \<^verbatim>\<open>DIAL_TONE\<close> and no line is written.
\<close>

theorem C2_dial_unregistered:
  "result_of (pbx_dial (Some 1) 99 (two_tus TU_DIAL_TONE TU_ON_HOOK False 2)) = Some (- 1)
   \<and> map_option state
       (tu_at 1 (world_of (pbx_dial (Some 1) 99 (two_tus TU_DIAL_TONE TU_ON_HOOK False 2))))
     = Some TU_DIAL_TONE
   \<and> written (world_of (pbx_dial (Some 1) 99 (two_tus TU_DIAL_TONE TU_ON_HOOK False 2)))
     = Some []"
  by code_simp

section \<open>The line of a command without effect\<close>

text \<open>The pickup that takes a TU from \<^verbatim>\<open>ON_HOOK\<close> to \<^verbatim>\<open>DIAL_TONE\<close> writes \<^verbatim>\<open>DIAL TONE\<close>.\<close>

lemma tu_pickup_transition_line:
  "written (world_of (tu_pickup (Some 2) (two_tus TU_DIAL_TONE TU_ON_HOOK False 2)))
     = Some [(5, ''DIAL TONE'' @ CRLF)]
   \<and> protocol_line 5 (''DIAL TONE'' @ CRLF)"
  by code_simp

text \<open>
  C3 at the failing input: a pickup on a TU that is in \<^verbatim>\<open>DIAL_TONE\<close> already sends the
  current state through \<^verbatim>\<open>notify_client_of_tu_state\<close>, whose table spells it
  \<^verbatim>\<open>DIAL_TONE\<close> with an underscore; that line is none of the eight encodings.
\<close>

theorem C3_noop_line:
  "written (world_of (tu_pickup (Some 1) (two_tus TU_DIAL_TONE TU_ON_HOOK False 2)))
     = Some [(4, ''DIAL_TONE'' @ CRLF)]
   \<and> \<not> protocol_line 4 (''DIAL_TONE'' @ CRLF)"
  by code_simp

section \<open>References of a call\<close>

text \<open>
  C5 at the failing input: the TU at address 1 (in \<^verbatim>\<open>DIAL_TONE\<close>, 2 references) dials
  the TU at address 2 (in \<^verbatim>\<open>ON_HOOK\<close>, 2 references) and hangs up.  The pairing is
  gone, the callee is back at 2 references, and the caller keeps 3: \<^verbatim>\<open>tu_hangup\<close>
  drops the reference on the peer only.
\<close>

theorem C5_leak:
  "map_option ref_count (tu_at 1 (Some (two_tus TU_DIAL_TONE TU_ON_HOOK False 2))) = Some 2
   \<and> map_option ref_count
       (tu_at 1 (world_of (dial_then_hangup 1 2 (two_tus TU_DIAL_TONE TU_ON_HOOK False 2))))
     = Some 3
   \<and> map_option peer
       (tu_at 1 (world_of (dial_then_hangup 1 2 (two_tus TU_DIAL_TONE TU_ON_HOOK False 2))))
     = Some None
   \<and> map_option ref_count
       (tu_at 2 (world_of (dial_then_hangup 1 2 (two_tus TU_DIAL_TONE TU_ON_HOOK False 2))))
     = Some 2"
  by code_simp

section \<open>Closing the descriptor\<close>

text \<open>
  C6 at the failing input: a client connects on descriptor 4 and disconnects without
  a command.  The last \<^verbatim>\<open>tu_unref\<close> of \<^verbatim>\<open>pbx_client_service\<close> closes descriptor 4 and
  frees the TU, and the \<^verbatim>\<open>close(fd)\<close> that follows closes descriptor 4 again.
\<close>

theorem C6_double_close:
  "closed_fds (pbx_client_service 4 1 [] boot) = Some [4, 4]"
  by code_simp

section \<open>The PBX lock during a dial\<close>

lemma pbx_lock_free_simps [simp]: "pbx_lock_free []" "pbx_lock_free (xs @ ys) = (pbx_lock_free xs \<and> pbx_lock_free ys)"
  "pbx_lock_free (e # es) = (e \<noteq> Lock LPbx \<and> e \<noteq> Unlock LPbx \<and> pbx_lock_free es)"
  by (auto simp: pbx_lock_free_def)

lemma trace_notify_client:
  "trace (notify_client f m w) = trace w @
     (if f < 0 then [] else if wfail w f then [Write f m, Close f] else [Write f m])"
  by (simp add: notify_client_def)

lemma tu_mutex_lock_trace:
  "tu_mutex_lock a w = Some w' \<Longrightarrow> trace w' = trace w @ [Lock (LTu a)]"
  by (auto simp: tu_mutex_lock_def mutex_lock_def split: if_splits)

lemma tu_mutex_unlock_trace:
  "tu_mutex_unlock a w = Some w' \<Longrightarrow> trace w' = trace w @ [Unlock (LTu a)]"
  by (auto simp: tu_mutex_unlock_def split: if_splits)

lemma tu_update_trace: "tu_update a f w = Some w' \<Longrightarrow> trace w' = trace w"
  by (auto simp: tu_update_def split: option.splits)

lemma tu_ref_trace: "tu_ref a w = Some w' \<Longrightarrow> trace w' = trace w"
  by (auto simp: tu_ref_def tu_update_def bind_eq_Some_conv split: if_splits option.splits)

lemma safe_mutex_lock_trace:
  "safe_mutex_lock a b w = Some w' \<Longrightarrow> \<exists>es. trace w' = trace w @ es \<and> pbx_lock_free es"
  by (auto simp: safe_mutex_lock_def bind_eq_Some_conv split: if_splits
      dest!: tu_mutex_lock_trace)

lemma safe_mutex_unlock_trace:
  "safe_mutex_unlock a b w = Some w' \<Longrightarrow> \<exists>es. trace w' = trace w @ es \<and> pbx_lock_free es"
  by (auto simp: safe_mutex_unlock_def bind_eq_Some_conv split: if_splits
      dest!: tu_mutex_unlock_trace)

lemma tu_unref_trace:
  "tu_unref tu w = Some w' \<Longrightarrow> \<exists>es. trace w' = trace w @ es \<and> pbx_lock_free es"
  by (cases tu) (auto simp: tu_unref_unfold split: option.splits if_splits)

lemma notify_client_of_tu_state_trace:
  "notify_client_of_tu_state a w = Some w' \<Longrightarrow> \<exists>es. trace w' = trace w @ es \<and> pbx_lock_free es"
  by (auto simp: notify_client_of_tu_state_def bind_eq_Some_conv trace_notify_client)

lemma tu_dial_trace:
  "tu_dial (Some a) tgt w = Some (r, w') \<Longrightarrow>
   \<exists>es. trace w' = trace w @ Lock (LTu a) # es \<and> pbx_lock_free es"
  by (auto simp: tu_dial_def bind_eq_Some_conv trace_notify_client
      dest!: notify_client_of_tu_state_trace tu_mutex_lock_trace tu_mutex_unlock_trace
        tu_update_trace tu_ref_trace safe_mutex_lock_trace safe_mutex_unlock_trace
      split: option.splits if_splits)

lemma result_of_SomeD: "result_of x = Some r \<Longrightarrow> \<exists>w'. x = Some (r, w')"
  by (cases x) (auto simp: result_of_def)

lemma tu_hangup_trace:
  "tu_hangup (Some a) w = Some (r, w') \<Longrightarrow>
   \<exists>es. trace w' = trace w @ Lock (LTu a) # es \<and> pbx_lock_free es"
  by (auto simp: tu_hangup_def bind_eq_Some_conv trace_notify_client Let_def
      dest!: notify_client_of_tu_state_trace tu_mutex_lock_trace tu_mutex_unlock_trace
        tu_update_trace tu_unref_trace
      split: if_splits)


lemma pbx_dial_trace:
  assumes "pbx_dial (Some a) e w = Some (r, w')" "extensions w e = Some b"
    "0 \<le> e" "e < PBX_MAX_EXTENSIONS"
  shows "\<exists>es. trace w' = trace w @ [Lock LPbx, Lock (LTu a)] @ es @ [Unlock LPbx] \<and> pbx_lock_free es"
proof -
  from assms obtain w1 w2 w3 w4 w5 where
    s: "tu_ref a (w\<lparr>held := insert LPbx (held w), trace := trace w @ [Lock LPbx]\<rparr>) = Some w1"
      "tu_ref b w1 = Some w2" "tu_dial (Some a) (Some b) w2 = Some (r, w3)"
      "tu_unref (Some b) w3 = Some w4" "tu_unref (Some a) w4 = Some w5"
      "w' = mutex_unlock LPbx w5"
    by (auto simp: pbx_dial_def mutex_lock_def bind_eq_Some_conv split: if_splits)
  from s(1,2) have "trace w2 = trace w @ [Lock LPbx]"
    by (auto dest!: tu_ref_trace)
  moreover from s(3) obtain es1 where "trace w3 = trace w2 @ Lock (LTu a) # es1" "pbx_lock_free es1"
    by (auto dest!: tu_dial_trace)
  moreover from s(4) obtain es2 where "trace w4 = trace w3 @ es2" "pbx_lock_free es2"
    by (auto dest!: tu_unref_trace)
  moreover from s(5) obtain es3 where "trace w5 = trace w4 @ es3" "pbx_lock_free es3"
    by (auto dest!: tu_unref_trace)
  ultimately have "trace w' = trace w @ [Lock LPbx, Lock (LTu a)] @ (es1 @ es2 @ es3) @ [Unlock LPbx]"
    "pbx_lock_free (es1 @ es2 @ es3)"
    using s(6) by simp_all
  then show ?thesis by blast
qed

lemma pbx_unregister_trace:
  assumes "pbx_unregister (Some a) w = Some (0, w')"
  shows "\<exists>es. trace w' = trace w @ [Lock LPbx, Lock (LTu a)] @ es @ [Unlock LPbx]
    \<and> pbx_lock_free es"
  using assms
  by (auto simp: pbx_unregister_def mutex_lock_def bind_eq_Some_conv Let_def tu_extension_def
      split: if_splits
      dest!: tu_ref_trace tu_hangup_trace tu_unref_trace)


text \<open>
  C4, as stated: no thread holds the PBX lock when it acquires the mutex of a TU, and
  \<^verbatim>\<open>pbx_dial\<close> releases the PBX lock before it calls \<^verbatim>\<open>tu_dial\<close>.  It does not: when the TU
  at address 1 dials extension 5, the trace of \<^verbatim>\<open>pbx_dial\<close> takes a TU mutex while the
  PBX lock is held.
\<close>

theorem C4_counterexample:
  "map_option (tu_lock_under_pbx False)
     (events (world_of (pbx_dial (Some 1) 5 (two_tus TU_DIAL_TONE TU_ON_HOOK False 2))))
   = Some True"
  by code_simp

text \<open>
  C4, amended: the PBX layer holds the PBX lock while it calls into the TU layer.
  Whenever \<^verbatim>\<open>pbx_dial\<close> finds a TU at the dialed extension and returns, its events
  are: the PBX lock is taken, next the mutex of the calling TU is taken (the first
  step of \<^verbatim>\<open>tu_dial\<close>), then come events of the TU layer only, and the PBX lock is
  released last.  Whenever \<^verbatim>\<open>pbx_unregister\<close> returns 0, its events have the same
  shape: the PBX lock, next the mutex of the TU (the first step of \<^verbatim>\<open>tu_hangup\<close>),
  then events of \<^verbatim>\<open>tu_hangup\<close> and the two \<^verbatim>\<open>tu_unref\<close> (and the signal of the
  condition variable), and the release of the PBX lock last.
\<close>

theorem C4_pbx_lock_held_in_tu_layer:
  "(pbx_dial (Some a) e w = Some (r, w') \<and> extensions w e = Some b
      \<and> 0 \<le> e \<and> e < PBX_MAX_EXTENSIONS \<longrightarrow>
      (\<exists>es. trace w' = trace w @ [Lock LPbx, Lock (LTu a)] @ es @ [Unlock LPbx]
         \<and> pbx_lock_free es))
   \<and> (pbx_unregister (Some c) v = Some (0, v') \<longrightarrow>
      (\<exists>es. trace v' = trace v @ [Lock LPbx, Lock (LTu c)] @ es @ [Unlock LPbx]
         \<and> pbx_lock_free es))"
proof (intro conjI impI)
  assume "pbx_dial (Some a) e w = Some (r, w') \<and> extensions w e = Some b
      \<and> 0 \<le> e \<and> e < PBX_MAX_EXTENSIONS"
  then show "\<exists>es. trace w' = trace w @ [Lock LPbx, Lock (LTu a)] @ es @ [Unlock LPbx]
         \<and> pbx_lock_free es"
    using pbx_dial_trace [of a e w r w' b] by simp
next
  assume "pbx_unregister (Some c) v = Some (0, v')"
  then show "\<exists>es. trace v' = trace v @ [Lock LPbx, Lock (LTu c)] @ es @ [Unlock LPbx]
         \<and> pbx_lock_free es"
    by (rule pbx_unregister_trace)
qed

theorem C4_pbx_lock_held_in_tu_layer_witness:
  "result_of (pbx_dial (Some 1) 5 (two_tus TU_DIAL_TONE TU_ON_HOOK False 2)) = Some 0
   \<and> (\<exists>w' es. world_of (pbx_dial (Some 1) 5 (two_tus TU_DIAL_TONE TU_ON_HOOK False 2)) = Some w'
        \<and> trace w' = [Lock LPbx, Lock (LTu 1)] @ es @ [Unlock LPbx] \<and> pbx_lock_free es)
   \<and> result_of (pbx_unregister (Some 1) (two_tus TU_CONNECTED TU_CONNECTED True 3)) = Some 0
   \<and> (\<exists>v' es. world_of (pbx_unregister (Some 1) (two_tus TU_CONNECTED TU_CONNECTED True 3))
          = Some v'
        \<and> trace v' = [Lock LPbx, Lock (LTu 1)] @ es @ [Unlock LPbx] \<and> pbx_lock_free es)"
proof -
  let ?w = "two_tus TU_DIAL_TONE TU_ON_HOOK False 2"
  let ?v = "two_tus TU_CONNECTED TU_CONNECTED True 3"
  have r: "result_of (pbx_dial (Some 1) 5 ?w) = Some 0"
    by code_simp
  then obtain w' where w': "pbx_dial (Some 1) 5 ?w = Some (0, w')"
    by (auto dest: result_of_SomeD)
  have u: "result_of (pbx_unregister (Some 1) ?v) = Some 0"
    by code_simp
  then obtain v' where v': "pbx_unregister (Some 1) ?v = Some (0, v')"
    by (auto dest: result_of_SomeD)
  have e: "extensions ?w 5 = Some 2" and t: "trace ?w = []" "trace ?v = []"
    by (simp_all add: two_tus_def boot_def)
  have b: "(0::int) \<le> 5" "5 < PBX_MAX_EXTENSIONS"
    by (simp_all add: PBX_MAX_EXTENSIONS_def)
  from C4_pbx_lock_held_in_tu_layer [of 1 5 ?w 0 w' 2 1 ?v v'] w' v' e b
  have "\<exists>es. trace w' = trace ?w @ [Lock LPbx, Lock (LTu 1)] @ es @ [Unlock LPbx]
         \<and> pbx_lock_free es"
    and "\<exists>es. trace v' = trace ?v @ [Lock LPbx, Lock (LTu 1)] @ es @ [Unlock LPbx]
         \<and> pbx_lock_free es"
    by simp_all
  with t w' v' r u show ?thesis
    by (simp add: world_of_def)
qed

section \<open>The extension of a new TU\<close>

text \<open>
  For every descriptor other than \<open>- 1\<close>, \<^verbatim>\<open>tu_init\<close> sets the extension of the new TU
  to the descriptor and writes the \<^verbatim>\<open>ON HOOK\<close> line itself, and every
  \<^verbatim>\<open>tu_set_extension\<close> on the new TU returns \<open>- 1\<close> and changes nothing.
\<close>

lemma tu_init_sets_extension:
  assumes "fd' \<noteq> - 1" "\<not> oom w" "LTu blk \<notin> held w"
  shows "\<exists>w1. tu_init fd' blk w = Some (Some blk, w1)
    \<and> map_option ext (heap w1 blk) = Some fd'
    \<and> writes (trace w1) = writes (trace w)
        @ (if fd' < 0 then [] else [(fd', snprintf 15 (''ON HOOK '' @ int_dec fd' @ CRLF))])
    \<and> tu_set_extension blk e w1 = Some (- 1, w1)"
  using assms
  by (simp add: tu_init_def mutex_lock_def mutex_reset_def tu_mutex_unlock_def
      tu_set_extension_def Let_def)

text \<open>
  Registered at extension 7, the TU of descriptor 4 keeps extension 4 and no
  \<^verbatim>\<open>ON HOOK 7\<close> is written; \<^verbatim>\<open>pbx_unregister\<close> then looks the TU up at extension 4 and
  fails.
\<close>

lemma register_at_other_extension:
  "result_of (init_then_register 4 1 7 boot) = Some 0
   \<and> map_option ext (tu_at 1 (world_of (init_then_register 4 1 7 boot))) = Some 4
   \<and> written (world_of (init_then_register 4 1 7 boot)) = Some [(4, ''ON HOOK 4'' @ CRLF)]
   \<and> result_of (init_register_unregister 4 1 7 boot) = Some (- 1)"
  by code_simp

text \<open>
  C7 at the failing input: \<^verbatim>\<open>tu_init(4)\<close> and then the first \<^verbatim>\<open>tu_set_extension\<close> on the
  new TU, with extension 4 as \<^verbatim>\<open>pbx_register\<close> calls it for a connection on descriptor
  4.  After \<^verbatim>\<open>tu_init\<close> the extension is 4 already, not the sentinel \<open>- 1\<close>; the
  first \<^verbatim>\<open>tu_set_extension\<close> returns \<open>- 1\<close> and writes no line.
\<close>

theorem C7_set_extension_fails:
  "map_option ext (tu_at 1 (world_of (tu_init 4 1 boot))) = Some 4
   \<and> result_of (init_then_set_extension 4 1 4 boot) = Some (- 1)
   \<and> written (world_of (init_then_set_extension 4 1 4 boot))
     = written (world_of (tu_init 4 1 boot))"
  by code_simp

section \<open>Dial and hang up\<close>

text \<open>
  For distinct live TUs \<open>a\<close> in \<^verbatim>\<open>DIAL_TONE\<close> and \<open>x\<close> in \<^verbatim>\<open>ON_HOOK\<close> without a peer,
  \<^verbatim>\<open>tu_dial\<close> of \<open>x\<close> by \<open>a\<close> returns 0 and pairs them in \<^verbatim>\<open>RING_BACK\<close> and
  \<^verbatim>\<open>RINGING\<close>, each with one more reference; \<^verbatim>\<open>tu_hangup\<close> of \<open>a\<close> then returns 0 and
  leaves \<open>x\<close> as it was before the dial, and \<open>a\<close> in \<^verbatim>\<open>ON_HOOK\<close> without a peer but with
  the reference of the call still counted.
\<close>

lemma dial_hangup_round_trip:
  assumes "a \<noteq> x" "heap w a = Some ta" "state ta = TU_DIAL_TONE"
    "heap w x = Some tx" "state tx = TU_ON_HOOK" "peer tx = None"
    "LTu a \<notin> held w" "LTu x \<notin> held w"
    "1 \<le> ref_count ta" "ref_count ta < INT_MAX" "1 \<le> ref_count tx" "ref_count tx < INT_MAX"
  shows "\<exists>w1 w2. tu_dial (Some a) (Some x) w = Some (0, w1)
    \<and> heap w1 a = Some (ta\<lparr>ref_count := ref_count ta + 1, state := TU_RING_BACK,
                              peer := Some x\<rparr>)
    \<and> heap w1 x = Some (tx\<lparr>ref_count := ref_count tx + 1, state := TU_RINGING,
                              peer := Some a\<rparr>)
    \<and> tu_hangup (Some a) w1 = Some (0, w2)
    \<and> heap w2 a = Some (ta\<lparr>ref_count := ref_count ta + 1, state := TU_ON_HOOK,
                              peer := None\<rparr>)
    \<and> heap w2 x = Some tx"
proof -
  from assms obtain w1 where d: "tu_dial (Some a) (Some x) w = Some (0, w1)"
    and h1: "heap w1 = (heap w)
        (a \<mapsto> ta\<lparr>ref_count := ref_count ta + 1, state := TU_RING_BACK, peer := Some x\<rparr>,
         x \<mapsto> tx\<lparr>ref_count := ref_count tx + 1, state := TU_RINGING, peer := Some a\<rparr>)"
    and l1: "held w1 = held w"
    using tu_dial_rings [of a x w ta tx] by auto
  let ?ta = "ta\<lparr>ref_count := ref_count ta + 1, state := TU_RING_BACK, peer := Some x\<rparr>"
  let ?tx = "tx\<lparr>ref_count := ref_count tx + 1, state := TU_RINGING, peer := Some a\<rparr>"
  from h1 \<open>a \<noteq> x\<close> have a1: "heap w1 a = Some ?ta" and x1: "heap w1 x = Some ?tx"
    by simp_all
  have rc: "ref_count ?tx \<noteq> INT_MIN" "ref_count ?tx \<noteq> 1"
    using \<open>1 \<le> ref_count tx\<close> by (simp_all add: INT_MIN_def)
  from tu_hangup_ring_back [OF \<open>a \<noteq> x\<close> a1 _ _ x1 _ _ rc] l1 assms(7,8)
  obtain w2 where h: "tu_hangup (Some a) w1 = Some (0, w2)"
    and h2: "heap w2 = (heap w1)
        (a \<mapsto> ?ta\<lparr>state := TU_ON_HOOK, peer := None\<rparr>,
         x \<mapsto> ?tx\<lparr>ref_count := ref_count ?tx - 1, state := TU_ON_HOOK, peer := None\<rparr>)"
    by auto
  have "?tx\<lparr>ref_count := ref_count ?tx - 1, state := TU_ON_HOOK, peer := None\<rparr> = tx"
    using assms(5,6) by simp
  with h2 \<open>a \<noteq> x\<close> have "heap w2 a = Some (ta\<lparr>ref_count := ref_count ta + 1,
      state := TU_ON_HOOK, peer := None\<rparr>)" "heap w2 x = Some tx"
    by simp_all
  with d h a1 x1 show ?thesis by blast
qed


text \<open>
  C9 at the failing input: the TU at address 1 (in \<^verbatim>\<open>DIAL_TONE\<close>, 2 references) dials
  the TU at address 2 (in \<^verbatim>\<open>ON_HOOK\<close>, no peer, 2 references) and hangs up.  Both calls
  return, both TUs are in \<^verbatim>\<open>ON_HOOK\<close> with no peer and the callee is as it was before,
  but the caller keeps a residue of the call: 3 references instead of 2.
\<close>

theorem C9_round_trip_residue:
  "result_of (dial_then_hangup 1 2 (two_tus TU_DIAL_TONE TU_ON_HOOK False 2)) = Some 0
   \<and> map_option state
       (tu_at 1 (world_of (dial_then_hangup 1 2 (two_tus TU_DIAL_TONE TU_ON_HOOK False 2))))
     = Some TU_ON_HOOK
   \<and> map_option state
       (tu_at 2 (world_of (dial_then_hangup 1 2 (two_tus TU_DIAL_TONE TU_ON_HOOK False 2))))
     = Some TU_ON_HOOK
   \<and> map_option peer
       (tu_at 1 (world_of (dial_then_hangup 1 2 (two_tus TU_DIAL_TONE TU_ON_HOOK False 2))))
     = Some None
   \<and> map_option peer
       (tu_at 2 (world_of (dial_then_hangup 1 2 (two_tus TU_DIAL_TONE TU_ON_HOOK False 2))))
     = Some None
   \<and> tu_at 2 (world_of (dial_then_hangup 1 2 (two_tus TU_DIAL_TONE TU_ON_HOOK False 2)))
     = tu_at 2 (Some (two_tus TU_DIAL_TONE TU_ON_HOOK False 2))
   \<and> map_option ref_count (tu_at 1 (Some (two_tus TU_DIAL_TONE TU_ON_HOOK False 2))) = Some 2
   \<and> map_option ref_count
       (tu_at 1 (world_of (dial_then_hangup 1 2 (two_tus TU_DIAL_TONE TU_ON_HOOK False 2))))
     = Some 3"
  by code_simp


section \<open>Where a chat line goes\<close>







section \<open>The peer invariant\<close>

lemma tu_inv_same: "tu_inv w \<Longrightarrow> heap w' = heap w \<Longrightarrow> tu_inv w'"
  by (simp add: tu_inv_def)

lemma tu_inv_solo:
  assumes "tu_inv w" "heap w a = Some t" "heap w' = (heap w)(a \<mapsto> t')" "peer t' = peer t"
    "(state t' \<in> {TU_RINGING, TU_RING_BACK, TU_CONNECTED})
     = (state t \<in> {TU_RINGING, TU_RING_BACK, TU_CONNECTED})"
  shows "tu_inv w'"
  unfolding tu_inv_def
proof (intro allI impI)
  fix c tc
  assume c: "heap w' c = Some tc"
  show "((peer tc \<noteq> None) = (state tc \<in> {TU_RINGING, TU_RING_BACK, TU_CONNECTED})) \<and>
        (\<forall>b. peer tc = Some b \<longrightarrow> (\<exists>tb. heap w' b = Some tb \<and> peer tb = Some c))"
  proof (cases "c = a")
    case True
    with c assms(3) have tc: "tc = t'" by simp
    from assms(1,2) have
      "((peer t \<noteq> None) = (state t \<in> {TU_RINGING, TU_RING_BACK, TU_CONNECTED}))"
      and "\<forall>b. peer t = Some b \<longrightarrow> (\<exists>tb. heap w b = Some tb \<and> peer tb = Some a)"
      by (auto simp: tu_inv_def)
    with tc True assms(2-5) show ?thesis by auto
  next
    case False
    with c assms(3) have "heap w c = Some tc" by simp
    with assms(1) have
      "((peer tc \<noteq> None) = (state tc \<in> {TU_RINGING, TU_RING_BACK, TU_CONNECTED}))"
      and "\<forall>b. peer tc = Some b \<longrightarrow> (\<exists>tb. heap w b = Some tb \<and> peer tb = Some c)"
      by (auto simp: tu_inv_def)
    with False assms(2-4) show ?thesis by auto
  qed
qed

lemma tu_inv_peer:
  "tu_inv w \<Longrightarrow> heap w a = Some t \<Longrightarrow> peer t = Some b \<Longrightarrow>
   \<exists>tb. heap w b = Some tb \<and> peer tb = Some a"
  by (auto simp: tu_inv_def)

lemma tu_inv_state:
  "tu_inv w \<Longrightarrow> heap w a = Some t \<Longrightarrow>
   (peer t \<noteq> None) = (state t \<in> {TU_RINGING, TU_RING_BACK, TU_CONNECTED})"
  by (auto simp: tu_inv_def)

lemma tu_inv_link:
  assumes "tu_inv w" "a \<noteq> b" "heap w a = Some ta" "heap w b = Some tb"
    "peer ta = None" "peer tb = None"
    "heap w' = (heap w)(a \<mapsto> ta', b \<mapsto> tb')"
    "peer ta' = Some b" "peer tb' = Some a"
    "state ta' \<in> {TU_RINGING, TU_RING_BACK, TU_CONNECTED}"
    "state tb' \<in> {TU_RINGING, TU_RING_BACK, TU_CONNECTED}"
  shows "tu_inv w'"
  unfolding tu_inv_def
proof (intro allI impI)
  fix c tc
  assume c: "heap w' c = Some tc"
  consider "c = a" | "c = b" | "c \<noteq> a" "c \<noteq> b" by blast
  then show "((peer tc \<noteq> None) = (state tc \<in> {TU_RINGING, TU_RING_BACK, TU_CONNECTED})) \<and>
        (\<forall>b. peer tc = Some b \<longrightarrow> (\<exists>tb. heap w' b = Some tb \<and> peer tb = Some c))"
  proof cases
    case 1
    with c assms(2,7) have "tc = ta'" by simp
    with 1 assms(2,7-11) show ?thesis by simp
  next
    case 2
    with c assms(2,7) have "tc = tb'" by simp
    with 2 assms(2,7-11) show ?thesis by simp
  next
    case 3
    with c assms(7) have hc: "heap w c = Some tc" by simp
    have "\<And>d. peer tc = Some d \<Longrightarrow> d \<noteq> a \<and> d \<noteq> b"
      using tu_inv_peer [OF assms(1) hc] assms(3-6) 3 by auto
    with tu_inv_state [OF assms(1) hc] tu_inv_peer [OF assms(1) hc] assms(7)
    show ?thesis by auto
  qed
qed

text \<open>Unlinking a pair: the peer is updated or freed.\<close>

lemma tu_inv_unlink:
  assumes "tu_inv w" "heap w a = Some ta" "peer ta = Some b"
    "heap w' a = Some ta'" "peer ta' = None"
    "state ta' \<notin> {TU_RINGING, TU_RING_BACK, TU_CONNECTED}"
    "heap w' b = None \<or> (\<exists>tb'. heap w' b = Some tb' \<and> peer tb' = None
        \<and> state tb' \<notin> {TU_RINGING, TU_RING_BACK, TU_CONNECTED})"
    "\<And>c. c \<noteq> a \<Longrightarrow> c \<noteq> b \<Longrightarrow> heap w' c = heap w c"
  shows "tu_inv w'"
  unfolding tu_inv_def
proof (intro allI impI)
  fix c tc
  assume c: "heap w' c = Some tc"
  from tu_inv_peer [OF assms(1,2,3)] obtain tb where
    tb: "heap w b = Some tb" "peer tb = Some a" by blast
  consider "c = a" | "c = b" | "c \<noteq> a" "c \<noteq> b" by blast
  then show "((peer tc \<noteq> None) = (state tc \<in> {TU_RINGING, TU_RING_BACK, TU_CONNECTED})) \<and>
        (\<forall>b. peer tc = Some b \<longrightarrow> (\<exists>tb. heap w' b = Some tb \<and> peer tb = Some c))"
  proof cases
    case 1
    with c assms(4) have "tc = ta'" by simp
    with assms(5,6) show ?thesis by simp
  next
    case 2
    with c assms(7) have "peer tc = None"
      "state tc \<notin> {TU_RINGING, TU_RING_BACK, TU_CONNECTED}" by auto
    then show ?thesis by simp
  next
    case 3
    with c assms(8) have hc: "heap w c = Some tc" by simp
    have "\<And>d. peer tc = Some d \<Longrightarrow> d \<noteq> a \<and> d \<noteq> b"
      using tu_inv_peer [OF assms(1) hc] assms(2,3) tb 3 by auto
    with tu_inv_state [OF assms(1) hc] tu_inv_peer [OF assms(1) hc] assms(8)
    show ?thesis by auto
  qed
qed

lemma tu_inv_free:
  assumes "tu_inv w" "heap w a = Some t" "peer t = None" "heap w' = (heap w)(a := None)"
  shows "tu_inv w'"
  unfolding tu_inv_def
proof (intro allI impI)
  fix c tc
  assume c: "heap w' c = Some tc"
  with assms(4) have ca: "c \<noteq> a" and hc: "heap w c = Some tc"
    by (auto split: if_splits)
  have "\<And>d. peer tc = Some d \<Longrightarrow> d \<noteq> a"
    using tu_inv_peer [OF assms(1) hc] assms(2,3) ca by auto
  with tu_inv_state [OF assms(1) hc] tu_inv_peer [OF assms(1) hc] assms(4)
  show "((peer tc \<noteq> None) = (state tc \<in> {TU_RINGING, TU_RING_BACK, TU_CONNECTED})) \<and>
        (\<forall>b. peer tc = Some b \<longrightarrow> (\<exists>tb. heap w' b = Some tb \<and> peer tb = Some c))"
    by auto
qed


lemmas prim_defs = tu_mutex_lock_def mutex_lock_def tu_mutex_unlock_def tu_update_def
  peer_of_def Let_def safe_mutex_lock_def safe_mutex_unlock_def tu_ref_def

lemma notify_client_of_tu_state_heap:
  "notify_client_of_tu_state a w = Some w' \<Longrightarrow> heap w' = heap w \<and> held w' = held w"
  by (auto simp: notify_client_of_tu_state_def bind_eq_Some_conv)

text \<open>What a call that returns says about the TU it is made on.\<close>

lemma tu_pickup_SomeD:
  assumes "tu_pickup (Some a) w = Some (r, w')"
  shows "\<exists>t. heap w a = Some t \<and> LTu a \<notin> held w"
  using assms by (cases "heap w a"; cases "LTu a \<in> held w") (simp_all add: tu_pickup_def prim_defs)

lemma tu_pickup_other:
  assumes "tu_pickup (Some a) w = Some (r, w')" "heap w a = Some t"
    "state t \<noteq> TU_ON_HOOK" "state t \<noteq> TU_RINGING"
  shows "heap w' = heap w"
  using assms
  by (cases "LTu a \<in> held w")
     (auto simp: tu_pickup_def prim_defs bind_eq_Some_conv
        dest!: notify_client_of_tu_state_heap split: if_splits)

lemma tu_pickup_idle:
  assumes "tu_pickup (Some a) w = Some (r, w')" "heap w a = Some t" "state t = TU_ON_HOOK"
  shows "heap w' = (heap w)(a \<mapsto> t\<lparr>state := TU_DIAL_TONE\<rparr>)"
  using assms
  by (cases "LTu a \<in> held w") (auto simp: tu_pickup_def prim_defs)

lemma tu_pickup_ringing:
  assumes "tu_pickup (Some a) w = Some (r, w')" "heap w a = Some t" "state t = TU_RINGING"
  shows "\<exists>b tb. peer t = Some b \<and> b \<noteq> a \<and> heap w b = Some tb \<and>
    heap w' = (heap w)(a \<mapsto> t\<lparr>state := TU_CONNECTED\<rparr>, b \<mapsto> tb\<lparr>state := TU_CONNECTED\<rparr>)"
proof -
  from assms(1) have la: "LTu a \<notin> held w"
    by (auto dest: tu_pickup_SomeD)
  from assms la obtain b where b: "peer t = Some b"
    by (cases "peer t") (simp_all add: tu_pickup_def prim_defs)
  from assms la b have ba: "b \<noteq> a"
    by (cases "b = a") (simp_all add: tu_pickup_def prim_defs)
  from assms la b ba obtain tb where tb: "heap w b = Some tb"
    by (cases "heap w b") (simp_all add: tu_pickup_def prim_defs)
  from assms la b ba tb have lb: "LTu b \<notin> held w"
    by (cases "LTu b \<in> held w") (simp_all add: tu_pickup_def prim_defs)
  from assms la b ba tb lb
  have "heap w' = (heap w)(a \<mapsto> t\<lparr>state := TU_CONNECTED\<rparr>, b \<mapsto> tb\<lparr>state := TU_CONNECTED\<rparr>)"
    by (auto simp: tu_pickup_def prim_defs)
  with b ba tb show ?thesis by blast
qed


lemma tu_dial_SomeD:
  assumes "tu_dial (Some a) tgt w = Some (r, w')"
  shows "\<exists>t. heap w a = Some t \<and> LTu a \<notin> held w"
  using assms by (cases "heap w a"; cases "LTu a \<in> held w") (simp_all add: tu_dial_def prim_defs)

lemma tu_dial_other:
  assumes "tu_dial (Some a) tgt w = Some (r, w')" "heap w a = Some t"
    "state t \<noteq> TU_DIAL_TONE"
  shows "heap w' = heap w"
  using assms
  by (cases "LTu a \<in> held w")
     (auto simp: tu_dial_def prim_defs bind_eq_Some_conv
        dest!: notify_client_of_tu_state_heap split: if_splits)

lemma tu_dial_none:
  assumes "tu_dial (Some a) None w = Some (r, w')" "heap w a = Some t"
    "state t = TU_DIAL_TONE"
  shows "heap w' = (heap w)(a \<mapsto> t\<lparr>state := TU_ERROR\<rparr>)"
  using assms
  by (cases "LTu a \<in> held w") (auto simp: tu_dial_def prim_defs)

lemma tu_dial_target:
  assumes "tu_dial (Some a) (Some b) w = Some (r, w')" "heap w a = Some t"
    "state t = TU_DIAL_TONE"
  shows "\<exists>tb. b \<noteq> a \<and> heap w b = Some tb \<and>
    (heap w' = (heap w)(a \<mapsto> t\<lparr>state := TU_BUSY_SIGNAL\<rparr>)
     \<or> state tb = TU_ON_HOOK \<and> peer tb = None \<and>
       heap w' = (heap w)
         (a \<mapsto> t\<lparr>ref_count := ref_count t + 1, state := TU_RING_BACK, peer := Some b\<rparr>,
          b \<mapsto> tb\<lparr>ref_count := ref_count tb + 1, state := TU_RINGING, peer := Some a\<rparr>))"
proof -
  from assms(1) have la: "LTu a \<notin> held w"
    by (auto dest: tu_dial_SomeD)
  from assms la have ba: "b \<noteq> a"
    by (cases "b = a") (simp_all add: tu_dial_def prim_defs split: if_splits)
  from assms la ba obtain tb where tb: "heap w b = Some tb"
    by (cases "heap w b") (simp_all add: tu_dial_def prim_defs split: if_splits)
  from assms la ba tb have lb: "LTu b \<notin> held w"
    by (cases "LTu b \<in> held w") (simp_all add: tu_dial_def prim_defs split: if_splits)
  show ?thesis
  proof (cases "state tb \<noteq> TU_ON_HOOK \<or> peer tb \<noteq> None")
    case True
    with assms la ba tb lb have "heap w' = (heap w)(a \<mapsto> t\<lparr>state := TU_BUSY_SIGNAL\<rparr>)"
      by (simp add: tu_dial_def prim_defs split: if_splits; clarsimp)
    with ba tb show ?thesis by (intro exI [where x = tb]) simp
  next
    case False
    with assms la ba tb lb have rc: "ref_count tb \<noteq> INT_MAX" "ref_count t \<noteq> INT_MAX"
      by (cases "ref_count tb = INT_MAX"; cases "ref_count t = INT_MAX";
          simp add: tu_dial_def prim_defs split: if_splits)+
    with False assms la ba tb lb have "heap w' = (heap w)
         (a \<mapsto> t\<lparr>ref_count := ref_count t + 1, state := TU_RING_BACK, peer := Some b\<rparr>,
          b \<mapsto> tb\<lparr>ref_count := ref_count tb + 1, state := TU_RINGING, peer := Some a\<rparr>)"
      by (simp add: tu_dial_def prim_defs split: if_splits; auto simp: fun_upd_twist)
    with False ba tb show ?thesis by (intro exI [where x = tb]) simp
  qed
qed

lemma tu_chat_heap:
  assumes "tu_chat tu m w = Some (r, w')"
  shows "heap w' = heap w"
proof (cases tu)
  case None
  with assms show ?thesis by (simp add: tu_chat_def)
next
  case (Some a)
  note tu = this
  show ?thesis
  proof (cases m)
    case None
    with assms tu show ?thesis by (simp add: tu_chat_def)
  next
    case (Some msg)
    note m = this
    from assms tu m obtain t where t: "heap w a = Some t" and la: "LTu a \<notin> held w"
      by (cases "heap w a"; cases "LTu a \<in> held w") (simp_all add: tu_chat_def prim_defs split: if_splits)
    show ?thesis
    proof (cases "state t \<noteq> TU_CONNECTED \<or> peer t = None")
      case True
      with assms tu m t la show ?thesis
        by (auto simp: tu_chat_def prim_defs bind_eq_Some_conv
            dest!: notify_client_of_tu_state_heap split: if_splits)
    next
      case False
      then obtain b where b: "peer t = Some b" and c: "state t = TU_CONNECTED" by auto
      from assms tu m t la b c have ba: "b \<noteq> a"
        by (cases "b = a") (simp_all add: tu_chat_def prim_defs split: if_splits)
      from assms tu m t la b c ba obtain tb where tb: "heap w b = Some tb"
        by (cases "heap w b") (simp_all add: tu_chat_def prim_defs split: if_splits)
      from assms tu m t la b c ba tb have lb: "LTu b \<notin> held w"
        by (cases "LTu b \<in> held w") (simp_all add: tu_chat_def prim_defs split: if_splits)
      from assms tu m t la b c ba tb lb show ?thesis
        by (cases "oom w") (simp_all add: tu_chat_def prim_defs split: if_splits; clarsimp)+
    qed
  qed
qed


lemma tu_hangup_SomeD:
  assumes "tu_hangup (Some a) w = Some (r, w')"
  shows "\<exists>t. heap w a = Some t \<and> LTu a \<notin> held w"
  using assms
  by (cases "heap w a"; cases "LTu a \<in> held w") (simp_all add: tu_hangup_def prim_defs)

lemma tu_hangup_idle:
  assumes "tu_hangup (Some a) w = Some (r, w')" "heap w a = Some t" "state t = TU_ON_HOOK"
  shows "heap w' = heap w"
  using assms
  by (cases "LTu a \<in> held w")
     (auto simp: tu_hangup_def prim_defs bind_eq_Some_conv
        dest!: notify_client_of_tu_state_heap split: if_splits)

lemma tu_hangup_solo:
  assumes "tu_hangup (Some a) w = Some (r, w')" "heap w a = Some t"
    "state t = TU_DIAL_TONE \<or> state t = TU_BUSY_SIGNAL \<or> state t = TU_ERROR"
    "peer t = None"
  shows "heap w' = (heap w)(a \<mapsto> t\<lparr>state := TU_ON_HOOK, peer := None\<rparr>)"
  using assms
  by (cases "LTu a \<in> held w") (auto simp: tu_hangup_def prim_defs)

lemma tu_hangup_paired:
  assumes "tu_hangup (Some a) w = Some (r, w')" "heap w a = Some t"
    "state t = TU_CONNECTED \<or> state t = TU_RINGING \<or> state t = TU_RING_BACK"
    "peer t = Some b" "heap w b = Some tb"
  shows "heap w' a = Some (t\<lparr>state := TU_ON_HOOK, peer := None\<rparr>)"
    and "heap w' b = None \<or>
      (\<exists>tb'. heap w' b = Some tb' \<and> peer tb' = None \<and>
          (state tb' = TU_ON_HOOK \<or> state tb' = TU_DIAL_TONE))"
    and "c \<noteq> a \<Longrightarrow> c \<noteq> b \<Longrightarrow> heap w' c = heap w c"
proof -
  from assms(1) have la: "LTu a \<notin> held w"
    by (auto dest: tu_hangup_SomeD)
  from assms la have ba: "b \<noteq> a"
    by (cases "b = a") (auto simp: tu_hangup_def prim_defs)
  from assms la ba have lb: "LTu b \<notin> held w"
    by (cases "LTu b \<in> held w") (auto simp: tu_hangup_def prim_defs)
  from assms la ba lb have rc: "ref_count tb \<noteq> INT_MIN"
    by (cases "ref_count tb = INT_MIN") (auto simp: tu_hangup_def prim_defs tu_unref_unfold)
  have "heap w' a = Some (t\<lparr>state := TU_ON_HOOK, peer := None\<rparr>)
    \<and> (heap w' b = None \<or>
      (\<exists>tb'. heap w' b = Some tb' \<and> peer tb' = None \<and>
          (state tb' = TU_ON_HOOK \<or> state tb' = TU_DIAL_TONE)))
    \<and> (c \<noteq> a \<longrightarrow> c \<noteq> b \<longrightarrow> heap w' c = heap w c)"
    using assms la ba lb rc
    by (cases "ref_count tb = 1") (auto simp: tu_hangup_def prim_defs tu_unref_unfold)
  then show "heap w' a = Some (t\<lparr>state := TU_ON_HOOK, peer := None\<rparr>)"
    and "heap w' b = None \<or>
      (\<exists>tb'. heap w' b = Some tb' \<and> peer tb' = None \<and>
          (state tb' = TU_ON_HOOK \<or> state tb' = TU_DIAL_TONE))"
    and "c \<noteq> a \<Longrightarrow> c \<noteq> b \<Longrightarrow> heap w' c = heap w c"
    by blast+
qed

lemma tu_unref_D:
  assumes "tu_unref (Some b) w = Some w'"
  shows "(\<exists>tb. heap w b = Some tb \<and>
      (heap w' = (heap w)(b \<mapsto> tb\<lparr>ref_count := ref_count tb - 1\<rparr>)
       \<or> peer tb = None \<and> heap w' = (heap w)(b := None)))"
proof -
  from assms obtain tb where tb: "heap w b = Some tb"
    by (cases "heap w b") (simp_all add: tu_unref_unfold)
  from assms tb have
    "w' = w\<lparr>heap := (heap w)(b \<mapsto> tb\<lparr>ref_count := ref_count tb - 1\<rparr>),
             trace := trace w @ [Lock (LTu b), Unlock (LTu b)]\<rparr>
     \<or> peer tb = None \<and>
       w' = w\<lparr>heap := (heap w)(b := None),
                trace := trace w @ [Lock (LTu b), Unlock (LTu b)]
                         @ (if fd tb \<ge> 0 then [Close (fd tb)] else []) @ [Free b]\<rparr>"
    by (simp add: tu_unref_unfold split: if_splits)
  then show ?thesis
  proof (elim disjE conjE)
    assume "w' = w\<lparr>heap := (heap w)(b \<mapsto> tb\<lparr>ref_count := ref_count tb - 1\<rparr>),
             trace := trace w @ [Lock (LTu b), Unlock (LTu b)]\<rparr>"
    with tb show ?thesis by simp
  next
    assume "peer tb = None" "w' = w\<lparr>heap := (heap w)(b := None),
                trace := trace w @ [Lock (LTu b), Unlock (LTu b)]
                         @ (if fd tb \<ge> 0 then [Close (fd tb)] else []) @ [Free b]\<rparr>"
    with tb show ?thesis by simp
  qed
qed

lemma tu_unref_inv:
  assumes "tu_inv w" "tu_unref tu w = Some w'"
  shows "tu_inv w'"
proof (cases tu)
  case None
  with assms show ?thesis by simp
next
  case (Some b)
  with assms(2) obtain tb where tb: "heap w b = Some tb"
    and h: "heap w' = (heap w)(b \<mapsto> tb\<lparr>ref_count := ref_count tb - 1\<rparr>)
       \<or> peer tb = None \<and> heap w' = (heap w)(b := None)"
    by (auto dest!: tu_unref_D)
  from h show ?thesis
  proof
    assume "heap w' = (heap w)(b \<mapsto> tb\<lparr>ref_count := ref_count tb - 1\<rparr>)"
    then show ?thesis
      by (intro tu_inv_solo
            [where t' = "tb\<lparr>ref_count := ref_count tb - 1\<rparr>", OF assms(1) tb]) simp_all
  next
    assume "peer tb = None \<and> heap w' = (heap w)(b := None)"
    then show ?thesis using tu_inv_free [OF assms(1) tb] by blast
  qed
qed


lemma tu_chat_inv: "tu_inv w \<Longrightarrow> tu_chat tu m w = Some (r, w') \<Longrightarrow> tu_inv w'"
  by (auto dest!: tu_chat_heap intro: tu_inv_same)

lemma tu_pickup_inv:
  assumes "tu_inv w" "tu_pickup tu w = Some (r, w')"
  shows "tu_inv w'"
proof (cases tu)
  case None
  with assms show ?thesis by (simp add: tu_pickup_def)
next
  case (Some a)
  note h = assms(2) [unfolded Some]
  from h obtain t where t: "heap w a = Some t"
    by (auto dest: tu_pickup_SomeD)
  consider (other) "state t \<noteq> TU_ON_HOOK" "state t \<noteq> TU_RINGING"
    | (idle) "state t = TU_ON_HOOK" | (ringing) "state t = TU_RINGING"
    by blast
  then show ?thesis
  proof cases
    case other
    with h t have "heap w' = heap w" by (intro tu_pickup_other)
    with assms(1) show ?thesis by (rule tu_inv_same)
  next
    case idle
    with h t have "heap w' = (heap w)(a \<mapsto> t\<lparr>state := TU_DIAL_TONE\<rparr>)"
      by (intro tu_pickup_idle)
    then show ?thesis
      using idle
      by (intro tu_inv_solo [where t' = "t\<lparr>state := TU_DIAL_TONE\<rparr>", OF assms(1) t])
         simp_all
  next
    case ringing
    from tu_pickup_ringing [OF h t ringing] obtain b tb where
      b: "peer t = Some b" "b \<noteq> a" "heap w b = Some tb" and
      h': "heap w' = (heap w)(a \<mapsto> t\<lparr>state := TU_CONNECTED\<rparr>,
                               b \<mapsto> tb\<lparr>state := TU_CONNECTED\<rparr>)"
      by blast
    from tu_inv_peer [OF assms(1) t b(1)] b(3) have "peer tb = Some a" by simp
    with tu_inv_state [OF assms(1) b(3)] have sb:
      "state tb \<in> {TU_RINGING, TU_RING_BACK, TU_CONNECTED}" by simp
    let ?w1 = "w\<lparr>heap := (heap w)(a \<mapsto> t\<lparr>state := TU_CONNECTED\<rparr>)\<rparr>"
    have i1: "tu_inv ?w1"
      using ringing
      by (intro tu_inv_solo [where t' = "t\<lparr>state := TU_CONNECTED\<rparr>", OF assms(1) t])
         simp_all
    from b have "heap ?w1 b = Some tb" by simp
    with h' sb show ?thesis
      by (intro tu_inv_solo [where t' = "tb\<lparr>state := TU_CONNECTED\<rparr>" and t = tb, OF i1])
         simp_all
  qed
qed

lemma tu_dial_inv:
  assumes "tu_inv w" "tu_dial tu tgt w = Some (r, w')"
  shows "tu_inv w'"
proof (cases tu)
  case None
  with assms show ?thesis by (simp add: tu_dial_def)
next
  case (Some a)
  note h = assms(2) [unfolded Some]
  from h obtain t where t: "heap w a = Some t"
    by (auto dest: tu_dial_SomeD)
  show ?thesis
  proof (cases "state t = TU_DIAL_TONE")
    case False
    with h t have "heap w' = heap w" by (intro tu_dial_other)
    with assms(1) show ?thesis by (rule tu_inv_same)
  next
    case True
    with tu_inv_state [OF assms(1) t] have pt: "peer t = None" by simp
    show ?thesis
    proof (cases tgt)
      case None
      with h t True have "heap w' = (heap w)(a \<mapsto> t\<lparr>state := TU_ERROR\<rparr>)"
        by (intro tu_dial_none) simp_all
      then show ?thesis
        using True
        by (intro tu_inv_solo [where t' = "t\<lparr>state := TU_ERROR\<rparr>", OF assms(1) t])
           simp_all
    next
      case (Some b)
      from tu_dial_target [OF h [unfolded Some] t True] obtain tb where
        ba: "b \<noteq> a" and tb: "heap w b = Some tb" and
        d: "heap w' = (heap w)(a \<mapsto> t\<lparr>state := TU_BUSY_SIGNAL\<rparr>)
          \<or> state tb = TU_ON_HOOK \<and> peer tb = None \<and>
            heap w' = (heap w)
             (a \<mapsto> t\<lparr>ref_count := ref_count t + 1, state := TU_RING_BACK, peer := Some b\<rparr>,
              b \<mapsto> tb\<lparr>ref_count := ref_count tb + 1, state := TU_RINGING, peer := Some a\<rparr>)"
        by blast
      from d show ?thesis
      proof (elim disjE conjE)
        assume "heap w' = (heap w)(a \<mapsto> t\<lparr>state := TU_BUSY_SIGNAL\<rparr>)"
        then show ?thesis
          using True
          by (intro tu_inv_solo [where t' = "t\<lparr>state := TU_BUSY_SIGNAL\<rparr>", OF assms(1) t])
             simp_all
      next
        assume "peer tb = None" and "heap w' = (heap w)
             (a \<mapsto> t\<lparr>ref_count := ref_count t + 1, state := TU_RING_BACK, peer := Some b\<rparr>,
              b \<mapsto> tb\<lparr>ref_count := ref_count tb + 1, state := TU_RINGING, peer := Some a\<rparr>)"
        then show ?thesis
          using ba pt
          by (intro tu_inv_link
                [where ta' = "t\<lparr>ref_count := ref_count t + 1, state := TU_RING_BACK,
                                 peer := Some b\<rparr>"
                   and tb' = "tb\<lparr>ref_count := ref_count tb + 1, state := TU_RINGING,
                                 peer := Some a\<rparr>"
                   and a = a and b = b, OF assms(1) _ t tb])
             simp_all
      qed
    qed
  qed
qed

lemma tu_hangup_inv:
  assumes "tu_inv w" "tu_hangup tu w = Some (r, w')"
  shows "tu_inv w'"
proof (cases tu)
  case None
  with assms show ?thesis by (simp add: tu_hangup_def)
next
  case (Some a)
  note h = assms(2) [unfolded Some]
  from h obtain t where t: "heap w a = Some t"
    by (auto dest: tu_hangup_SomeD)
  consider (idle) "state t = TU_ON_HOOK"
    | (solo) "state t = TU_DIAL_TONE \<or> state t = TU_BUSY_SIGNAL \<or> state t = TU_ERROR"
    | (paired) "state t = TU_CONNECTED \<or> state t = TU_RINGING \<or> state t = TU_RING_BACK"
    by (cases "state t") simp_all
  then show ?thesis
  proof cases
    case idle
    with h t have "heap w' = heap w" by (intro tu_hangup_idle)
    with assms(1) show ?thesis by (rule tu_inv_same)
  next
    case solo
    with tu_inv_state [OF assms(1) t] have pt: "peer t = None" by auto
    from tu_hangup_solo [OF h t solo pt] show ?thesis
      using solo pt
      by (intro tu_inv_solo
            [where t' = "t\<lparr>state := TU_ON_HOOK, peer := None\<rparr>", OF assms(1) t])
         auto
  next
    case paired
    with tu_inv_state [OF assms(1) t] obtain b where b: "peer t = Some b" by auto
    from tu_inv_peer [OF assms(1) t b] obtain tb where tb: "heap w b = Some tb" by blast
    note p = tu_hangup_paired [OF h t paired b tb]
    show ?thesis
    proof (rule tu_inv_unlink [OF assms(1) t b p(1)])
      show "heap w' b = None \<or>
        (\<exists>tb'. heap w' b = Some tb' \<and> peer tb' = None \<and>
           state tb' \<notin> {TU_RINGING, TU_RING_BACK, TU_CONNECTED})"
        using p(2) by auto
    next
      fix c
      assume "c \<noteq> a" "c \<noteq> b"
      then show "heap w' c = heap w c" by (rule p(3))
    qed simp_all
  qed
qed

text \<open>
  The invariant \<open>tu_inv\<close> (a TU has a peer exactly in the states \<^verbatim>\<open>RINGING\<close>,
  \<^verbatim>\<open>RING_BACK\<close> and \<^verbatim>\<open>CONNECTED\<close>, and the peer of a TU is a live TU whose peer is the
  first one) holds again after every \<^verbatim>\<open>tu_dial\<close>, \<^verbatim>\<open>tu_pickup\<close>, \<^verbatim>\<open>tu_hangup\<close>,
  \<^verbatim>\<open>tu_chat\<close> and \<^verbatim>\<open>tu_unref\<close> that starts where it holds and returns, the operations
  run one after the other.
\<close>

lemma tu_inv_preserved:
  assumes "tu_inv w"
  shows "(\<forall>r w'. tu_dial tu tgt w = Some (r, w') \<longrightarrow> tu_inv w')
    \<and> (\<forall>r w'. tu_pickup tu w = Some (r, w') \<longrightarrow> tu_inv w')
    \<and> (\<forall>r w'. tu_hangup tu w = Some (r, w') \<longrightarrow> tu_inv w')
    \<and> (\<forall>r w'. tu_chat tu msg w = Some (r, w') \<longrightarrow> tu_inv w')
    \<and> (\<forall>w'. tu_unref tu w = Some w' \<longrightarrow> tu_inv w')"
  using assms
  by (blast intro: tu_dial_inv tu_pickup_inv tu_hangup_inv tu_chat_inv tu_unref_inv)


lemma closed_fds_SomeD: "closed_fds x = Some l \<Longrightarrow> \<exists>w'. x = Some w'"
  by (cases x) (auto simp: closed_fds_def)

lemma tu_inv_two_tus:
  "tu_inv (two_tus TU_DIAL_TONE TU_ON_HOOK False 2)"
  "tu_inv (two_tus TU_RING_BACK TU_RINGING True 3)"
  "tu_inv (two_tus TU_CONNECTED TU_CONNECTED True 3)"
  "tu_inv (two_tus TU_CONNECTED TU_CONNECTED True 1)"
  by (auto simp: tu_inv_def two_tus_def boot_def split: if_splits)

lemma tu_inv_preserved_example:
  "tu_inv (two_tus TU_DIAL_TONE TU_ON_HOOK False 2)
   \<and> (\<exists>w'. tu_dial (Some 1) (Some 2) (two_tus TU_DIAL_TONE TU_ON_HOOK False 2) = Some (0, w')
         \<and> tu_inv w')
   \<and> tu_inv (two_tus TU_RING_BACK TU_RINGING True 3)
   \<and> (\<exists>w'. tu_pickup (Some 2) (two_tus TU_RING_BACK TU_RINGING True 3) = Some (0, w')
         \<and> tu_inv w')
   \<and> tu_inv (two_tus TU_CONNECTED TU_CONNECTED True 3)
   \<and> (\<exists>w'. tu_hangup (Some 1) (two_tus TU_CONNECTED TU_CONNECTED True 3) = Some (0, w')
         \<and> tu_inv w')
   \<and> (\<exists>w'. tu_chat (Some 1) (Some ''hi'') (two_tus TU_CONNECTED TU_CONNECTED True 3)
           = Some (0, w') \<and> tu_inv w')
   \<and> (\<exists>w'. tu_unref (Some 1) (two_tus TU_CONNECTED TU_CONNECTED True 3) = Some w'
         \<and> tu_inv w')"
proof -
  let ?d = "two_tus TU_DIAL_TONE TU_ON_HOOK False 2"
  let ?r = "two_tus TU_RING_BACK TU_RINGING True 3"
  let ?c = "two_tus TU_CONNECTED TU_CONNECTED True 3"
  have "result_of (tu_dial (Some 1) (Some 2) ?d) = Some 0" by code_simp
  then obtain w1 where 1: "tu_dial (Some 1) (Some 2) ?d = Some (0, w1)"
    by (auto dest: result_of_SomeD)
  have "result_of (tu_pickup (Some 2) ?r) = Some 0" by code_simp
  then obtain w2 where 2: "tu_pickup (Some 2) ?r = Some (0, w2)"
    by (auto dest: result_of_SomeD)
  have "result_of (tu_hangup (Some 1) ?c) = Some 0" by code_simp
  then obtain w3 where 3: "tu_hangup (Some 1) ?c = Some (0, w3)"
    by (auto dest: result_of_SomeD)
  have "result_of (tu_chat (Some 1) (Some ''hi'') ?c) = Some 0" by code_simp
  then obtain w4 where 4: "tu_chat (Some 1) (Some ''hi'') ?c = Some (0, w4)"
    by (auto dest: result_of_SomeD)
  have "closed_fds (tu_unref (Some 1) ?c) = Some []" by code_simp
  then obtain w5 where 5: "tu_unref (Some 1) ?c = Some w5"
    by (auto dest: closed_fds_SomeD)
  from tu_inv_preserved [OF tu_inv_two_tus(1), of "Some 1" "Some 2"] 1
  have "tu_inv w1" by blast
  moreover from tu_inv_preserved [OF tu_inv_two_tus(2), of "Some 2"] 2
  have "tu_inv w2" by blast
  moreover from tu_inv_preserved [OF tu_inv_two_tus(3), of "Some 1" _ "Some ''hi''"]
    3 4 5
  have "tu_inv w3" "tu_inv w4" "tu_inv w5" by blast+
  ultimately show ?thesis
    using 1 2 3 4 5 tu_inv_two_tus by simp
qed



subsection \<open>The cleanup of a TU that has a peer\<close>

lemma tu_unref_to_peer_call_SomeD:
  assumes "tu_unref_to_peer_call a w = Some w1"
  shows "\<exists>t p. heap w a = Some t \<and> ref_count t = 1 \<and> peer t = Some p"
proof -
  from assms obtain t where t: "heap w a = Some t" and la: "LTu a \<notin> held w"
    by (cases "heap w a"; cases "LTu a \<in> held w")
       (simp_all add: tu_unref_to_peer_call_def prim_defs)
  from assms t la have m: "ref_count t \<noteq> INT_MIN"
    by (cases "ref_count t = INT_MIN") (simp_all add: tu_unref_to_peer_call_def prim_defs)
  from assms t la m have rc: "ref_count t = 1"
    by (cases "ref_count t = 1") (simp_all add: tu_unref_to_peer_call_def prim_defs)
  from assms t la m rc obtain p where "peer t = Some p"
    by (cases "peer t") (simp_all add: tu_unref_to_peer_call_def prim_defs)
  with t rc show ?thesis by simp
qed

text \<open>Where the cleanup reaches its call on the peer, \<^verbatim>\<open>tu_unref\<close> does not return.\<close>

lemma tu_unref_to_peer_call_stuck:
  assumes "tu_unref_to_peer_call a w = Some w1"
  shows "tu_unref (Some a) w = None"
  using tu_unref_to_peer_call_SomeD [OF assms] by (auto intro: tu_unref_peer_stuck)

text \<open>
  The calls of \<open>released_pair\<close> all return and leave the two TUs as they are in
  \<open>two_tus TU_CONNECTED TU_CONNECTED True 1\<close>; one more \<^verbatim>\<open>tu_unref\<close> does not return.
\<close>

lemma released_pair_cleanup:
  "tu_at 1 released_pair = tu_at 1 (Some (two_tus TU_CONNECTED TU_CONNECTED True 1))
   \<and> tu_at 2 released_pair = tu_at 2 (Some (two_tus TU_CONNECTED TU_CONNECTED True 1))
   \<and> events (Option.bind released_pair (tu_unref (Some 1))) = None"
  by code_simp



end
